theory Spec2Isabelle
  imports Main
begin

text \<open>
  A shallow embedding of the GitHub profile scraper (\<^verbatim>\<open>src/scraper/github_scraper.py\<close>,
  \<^verbatim>\<open>models.py\<close>, \<^verbatim>\<open>file_handler.py\<close>): the data classes, the HTTP client with its rate-limit
  retry, the README resolver, the profile and repository fetchers, the statistics and the
  result assembler, followed by the properties proved of them.
\<close>

section \<open>Data model (src/scraper/models.py)\<close>

text \<open>
  The dataclasses of \<^verbatim>\<open>models.py\<close> as records. Python's unbounded \<^verbatim>\<open>int\<close> is \<open>int\<close>,
  \<^verbatim>\<open>Optional[str]\<close> is \<open>string option\<close>. A \<^verbatim>\<open>Dict[str, int]\<close> is an association list
  in insertion order: Python dictionaries iterate in insertion order, and
  \<^verbatim>\<open>unique_languages\<close> is read off that order.
\<close>

type_synonym 'v dict = "(string \<times> 'v) list"

record UserProfile =
  name :: "string option"
  bio :: "string option"
  company :: "string option"
  website :: "string option"
  twitter :: "string option"
  location :: "string option"
  email :: "string option"
  public_repos :: int
  followers :: int
  following :: int
  profile_readme :: "string option"
  avatar_url :: "string option"
  login :: string

record Repository =
  repo_name :: string
  about :: "string option"
  description :: "string option"
  readme_content :: "string option"
  languages :: "int dict"
  url :: string
  stars :: int
  forks :: int
  is_fork :: bool
  default_branch :: string

record ScrapingStatistics =
  total_repositories :: int
  repositories_with_readme :: int
  total_stars :: int
  total_forks :: int
  unique_languages :: "string list"
  language_distribution :: "int dict"

record ScrapingMetadata =
  scraped_at :: string
  scraper_version :: string
  total_api_requests :: int
  saved_to_file :: "string option"
  save_error :: "string option"

record CompleteUserData =
  profile :: UserProfile
  repositories :: "Repository list"
  statistics :: ScrapingStatistics
  metadata :: ScrapingMetadata

section \<open>Python dictionaries and truthiness\<close>

text \<open>\<^verbatim>\<open>d.get(k, default)\<close>.\<close>

definition dict_get :: "'v dict \<Rightarrow> string \<Rightarrow> 'v \<Rightarrow> 'v" where
  "dict_get d k dflt = (case map_of d k of None \<Rightarrow> dflt | Some v \<Rightarrow> v)"

text \<open>
  \<^verbatim>\<open>d[k] = v\<close>: an existing key keeps its position and takes the new value, a new key
  goes to the end.
\<close>

fun dict_set :: "string \<Rightarrow> 'v \<Rightarrow> 'v dict \<Rightarrow> 'v dict" where
  "dict_set k v [] = [(k, v)]"
| "dict_set k v ((k', v') # d) = (if k' = k then (k, v) # d else (k', v') # dict_set k v d)"

text \<open>The truth value of an \<^verbatim>\<open>Optional[str]\<close>: \<^verbatim>\<open>None\<close> and \<^verbatim>\<open>''\<close> are false.\<close>

fun truthy_str :: "string option \<Rightarrow> bool" where
  "truthy_str None = False"
| "truthy_str (Some s) = (s \<noteq> [])"

section \<open>Statistics aggregation (\<^verbatim>\<open>_calculate_statistics\<close>)\<close>

text \<open>
  The inner loop
  \<^verbatim>\<open>for lang, bytes_count in repo.languages.items():
      all_languages[lang] = all_languages.get(lang, 0) + bytes_count\<close>
\<close>

fun add_languages :: "int dict \<Rightarrow> int dict \<Rightarrow> int dict" where
  "add_languages all_languages [] = all_languages"
| "add_languages all_languages ((lang, bytes_count) # items) =
     add_languages (dict_set lang (dict_get all_languages lang 0 + bytes_count) all_languages) items"

text \<open>The outer loop \<^verbatim>\<open>for repo in repositories\<close>.\<close>

fun aggregate_languages :: "int dict \<Rightarrow> Repository list \<Rightarrow> int dict" where
  "aggregate_languages all_languages [] = all_languages"
| "aggregate_languages all_languages (repo # rest) =
     aggregate_languages (add_languages all_languages (languages repo)) rest"

definition calculate_statistics :: "Repository list \<Rightarrow> ScrapingStatistics" where
  "calculate_statistics repos =
     (let total_stars = sum_list (map stars repos);
          total_forks = sum_list (map forks repos);
          repos_with_readme = sum_list (map (\<lambda>repo. 1) (filter (\<lambda>repo. truthy_str (readme_content repo)) repos));
          all_languages = aggregate_languages [] repos
      in \<lparr> total_repositories = int (length repos),
           repositories_with_readme = repos_with_readme,
           total_stars = total_stars,
           total_forks = total_forks,
           unique_languages = map fst all_languages,
           language_distribution = all_languages \<rparr>)"

section \<open>JSON values and the Python operations applied to them\<close>

text \<open>
  What \<^verbatim>\<open>response.json()\<close> returns. Python's \<^verbatim>\<open>None\<close> is \<open>JNull\<close>, so the
  \<^verbatim>\<open>Optional\<close> result of \<^verbatim>\<open>_make_api_request\<close> is a \<open>json\<close> value. JSON numbers with a
  fraction are left out: no endpoint the scraper reads returns one.
\<close>

datatype json =
    JNull
  | JBool bool
  | JInt int
  | JStr string
  | JList "json list"
  | JDict "(string \<times> json) list"

text \<open>
  The exceptions that leave the methods of \<^verbatim>\<open>GitHubScraper\<close>. \<open>Exception\<close> is the one
  \<^verbatim>\<open>scrape_user_complete\<close> raises itself. \<open>SchemaError\<close> is not a Python exception: it marks
  a run in which an upstream value does not have the type \<^verbatim>\<open>models.py\<close> declares for the
  field it is stored in. Python stores such a value unchanged; the typed records cannot
  hold it, so the model stops there.
\<close>

datatype error = AttributeError | TypeError | ValueError | Exception string | SchemaError

text \<open>The truth value Python gives a value in \<^verbatim>\<open>if x\<close> and \<^verbatim>\<open>not x\<close>.\<close>

fun truthy :: "json \<Rightarrow> bool" where
  "truthy JNull = False"
| "truthy (JBool b) = b"
| "truthy (JInt n) = (n \<noteq> 0)"
| "truthy (JStr s) = (s \<noteq> [])"
| "truthy (JList xs) = (xs \<noteq> [])"
| "truthy (JDict d) = (d \<noteq> [])"

text \<open>\<^verbatim>\<open>x.get(key, default)\<close>: only a dictionary has the method.\<close>

fun py_get :: "json \<Rightarrow> string \<Rightarrow> json \<Rightarrow> error + json" where
  "py_get (JDict d) k dflt = Inr (dict_get d k dflt)"
| "py_get _ k dflt = Inl AttributeError"

text \<open>\<^verbatim>\<open>len(x)\<close>.\<close>

fun py_len :: "json \<Rightarrow> error + int" where
  "py_len (JStr s) = Inr (int (length s))"
| "py_len (JList xs) = Inr (int (length xs))"
| "py_len (JDict d) = Inr (int (length d))"
| "py_len _ = Inl TypeError"

text \<open>
  The items of \<^verbatim>\<open>for item in x\<close>: the elements of a list, the keys of a dictionary, the
  characters of a string.
\<close>

fun py_iter :: "json \<Rightarrow> error + json list" where
  "py_iter (JList xs) = Inr xs"
| "py_iter (JDict d) = Inr (map (\<lambda>item. JStr (fst item)) d)"
| "py_iter (JStr s) = Inr (map (\<lambda>c. JStr [c]) s)"
| "py_iter _ = Inl TypeError"

text \<open>Reading a value into a typed dataclass field.\<close>

fun opt_str_field :: "json \<Rightarrow> error + string option" where
  "opt_str_field JNull = Inr None"
| "opt_str_field (JStr s) = Inr (Some s)"
| "opt_str_field _ = Inl SchemaError"

fun str_field :: "json \<Rightarrow> error + string" where
  "str_field (JStr s) = Inr s"
| "str_field _ = Inl SchemaError"

fun int_field :: "json \<Rightarrow> error + int" where
  "int_field (JInt n) = Inr n"
| "int_field _ = Inl SchemaError"

fun bool_field :: "json \<Rightarrow> error + bool" where
  "bool_field (JBool b) = Inr b"
| "bool_field _ = Inl SchemaError"

fun int_dict_field :: "(string \<times> json) list \<Rightarrow> error + int dict" where
  "int_dict_field [] = Inr []"
| "int_dict_field ((k, v) # rest) =
     (case int_field v of
        Inl e \<Rightarrow> Inl e
      | Inr n \<Rightarrow> (case int_dict_field rest of Inl e \<Rightarrow> Inl e | Inr d \<Rightarrow> Inr ((k, n) # d)))"

text \<open>Sequencing of steps that may raise.\<close>

fun and_then :: "error + 'a \<Rightarrow> ('a \<Rightarrow> error + 'b) \<Rightarrow> error + 'b" where
  "and_then (Inl e) f = Inl e"
| "and_then (Inr x) f = f x"

section \<open>Strings\<close>

text \<open>\<^verbatim>\<open>str.lower()\<close> on the ASCII letters, and \<^verbatim>\<open>needle in haystack\<close>.\<close>

definition lower_char :: "char \<Rightarrow> char" where
  "lower_char c =
     (case map_of (zip ''ABCDEFGHIJKLMNOPQRSTUVWXYZ'' ''abcdefghijklmnopqrstuvwxyz'') c of
        None \<Rightarrow> c
      | Some l \<Rightarrow> l)"

definition lower :: "string \<Rightarrow> string" where
  "lower s = map lower_char s"

fun starts_with :: "string \<Rightarrow> string \<Rightarrow> bool" where
  "starts_with s [] = True"
| "starts_with [] (p # ps) = False"
| "starts_with (c # s) (p # ps) = (c = p \<and> starts_with s ps)"

fun contains :: "string \<Rightarrow> string \<Rightarrow> bool" where
  "contains [] needle = (needle = [])"
| "contains (c # s) needle = (starts_with (c # s) needle \<or> contains s needle)"

section \<open>The world outside the scraper\<close>

text \<open>
  A request is the URL and the query parameters given to \<^verbatim>\<open>session.get\<close>. Of a response
  the scraper reads the status code, the body text, the \<^verbatim>\<open>X-RateLimit-Reset\<close> header and the
  parsed JSON body (\<open>None\<close> when \<^verbatim>\<open>response.json()\<close> raises, which \<^verbatim>\<open>requests\<close> reports
  as a \<^verbatim>\<open>RequestException\<close>). The header is kept as what
  \<^verbatim>\<open>int(response.headers.get('X-RateLimit-Reset', 0))\<close> makes of it: the default \<open>0\<close> when it
  is absent, its integer value, or a \<^verbatim>\<open>ValueError\<close> when it is not an integer literal.
  \<^verbatim>\<open>X-RateLimit-Remaining\<close> is only logged and is left out, as is all logging.
\<close>

datatype param = PInt int | PStr string

record request =
  req_url :: string
  req_params :: "(string \<times> param) list option"

datatype reset_header = ResetAbsent | ResetInt int | ResetInvalid

record response =
  status_code :: int
  body_text :: string
  ratelimit_reset :: reset_header
  json_body :: "json option"

datatype http_result = RequestException | Response response

datatype duration = Seconds int | Tenth

text \<open>
  What a run does to the outside, in order: \<open>Get\<close> for every call of \<^verbatim>\<open>session.get\<close>,
  \<open>Sleep\<close> for every call of \<^verbatim>\<open>time.sleep\<close> (\<open>Tenth\<close> is the delay of 0.1 seconds between
  repositories).
\<close>

datatype event = Get request | Sleep duration

text \<open>
  The outside world is a state \<open>'w\<close> with the operations the scraper calls on it:
  \<^verbatim>\<open>session.get(url, params=params, timeout=10)\<close>, \<^verbatim>\<open>int(time.time())\<close>,
  \<^verbatim>\<open>time.sleep\<close>, \<^verbatim>\<open>datetime.now().isoformat()\<close>, and
  \<^verbatim>\<open>base64.b64decode(c).decode('utf-8')\<close> (\<open>None\<close> when either step raises).
\<close>

record 'w host =
  session_get :: "request \<Rightarrow> 'w \<Rightarrow> http_result \<times> 'w"
  time_time :: "'w \<Rightarrow> int"
  time_sleep :: "duration \<Rightarrow> 'w \<Rightarrow> 'w"
  now_isoformat :: "'w \<Rightarrow> string"
  b64decode_utf8 :: "string \<Rightarrow> string option"

text \<open>
  The file system as \<^verbatim>\<open>FileHandler.save_to_json\<close> uses it:
  \<^verbatim>\<open>datetime.now().strftime('%Y%m%d_%H%M%S')\<close>, and the \<^verbatim>\<open>try\<close> block that serialises
  and writes the document, which gives \<open>None\<close> when it succeeds and the text of the
  exception when it raises.
\<close>

record 'w filesystem =
  now_strftime :: "'w \<Rightarrow> string"
  write_json :: "string \<Rightarrow> CompleteUserData \<Rightarrow> 'w \<Rightarrow> string option \<times> 'w"

text \<open>
  The fields of a \<^verbatim>\<open>GitHubScraper\<close> object that its methods read or write, the output
  directory of its \<^verbatim>\<open>FileHandler\<close>, the world, and the record of what was done to it.
\<close>

record 'w scraper =
  api_requests_count :: int
  save_to_file :: bool
  output_dir :: string
  world :: 'w
  trace :: "event list"

definition new_scraper :: "bool \<Rightarrow> string \<Rightarrow> 'w \<Rightarrow> 'w scraper" where
  "new_scraper save dir w =
     \<lparr> api_requests_count = 0, save_to_file = save, output_dir = dir, world = w, trace = [] \<rparr>"

text \<open>
  A method either does not return (\<open>None\<close>), or returns the scraper as it has left it
  together with the exception it raised (\<open>Inl\<close>) or its result (\<open>Inr\<close>).
\<close>

type_synonym ('a, 'w) run = "((error + 'a) \<times> 'w scraper) option"

definition base_api_url :: string where
  "base_api_url = ''https://api.github.com''"

section \<open>HTTP client and rate-limit retry (\<^verbatim>\<open>_make_api_request\<close>)\<close>

text \<open>\<^verbatim>\<open>int(response.headers.get('X-RateLimit-Reset', 0))\<close>\<close>

fun reset_epoch :: "reset_header \<Rightarrow> error + int" where
  "reset_epoch ResetAbsent = Inr 0"
| "reset_epoch (ResetInt n) = Inr n"
| "reset_epoch ResetInvalid = Inl ValueError"

text \<open>
  \<^verbatim>\<open>response.status_code == 403 and 'rate limit' in response.text.lower()\<close>
\<close>

definition rate_limited :: "response \<Rightarrow> bool" where
  "rate_limited r = (status_code r = 403 \<and> contains (lower (body_text r)) ''rate limit'')"

text \<open>
  The method calls itself after the sleep, so a host that answers with a rate-limit
  response for ever gives a run that does not return (Python would end it with a
  \<^verbatim>\<open>RecursionError\<close> after about a thousand retries, which is not modelled). The counter is
  incremented before \<^verbatim>\<open>session.get\<close> is called, also when the call raises.
\<close>

partial_function (option) make_api_request ::
  "'w host \<Rightarrow> string \<Rightarrow> (string \<times> param) list option \<Rightarrow> 'w scraper \<Rightarrow> (json, 'w) run"
where
  "make_api_request h api_url params s =
     (let s1 = s\<lparr> api_requests_count := api_requests_count s + 1 \<rparr>;
          req = \<lparr> req_url = api_url, req_params = params \<rparr>;
          got = session_get h req (world s1);
          s2 = s1\<lparr> world := snd got, trace := trace s1 @ [Get req] \<rparr>
      in case fst got of
           RequestException \<Rightarrow> Some (Inr JNull, s2)
         | Response r \<Rightarrow>
             if rate_limited r then
               (case reset_epoch (ratelimit_reset r) of
                  Inl e \<Rightarrow> Some (Inl e, s2)
                | Inr reset_time \<Rightarrow>
                    let current_time = time_time h (world s2);
                        wait_time = max (reset_time - current_time) 60;
                        s3 = s2\<lparr> world := time_sleep h (Seconds wait_time) (world s2),
                                 trace := trace s2 @ [Sleep (Seconds wait_time)] \<rparr>
                    in make_api_request h api_url params s3)
             else if 400 \<le> status_code r \<and> status_code r < 600 then Some (Inr JNull, s2)
             else (case json_body r of
                     None \<Rightarrow> Some (Inr JNull, s2)
                   | Some j \<Rightarrow> Some (Inr j, s2)))"

section \<open>README resolver (\<^verbatim>\<open>_get_readme_content\<close>, \<^verbatim>\<open>_get_profile_readme\<close>)\<close>

definition readme_names :: "string list" where
  "readme_names = [''README.md'', ''readme.md'', ''README.rst'', ''README.txt'', ''README'']"

text \<open>
  \<^verbatim>\<open>base64.b64decode(readme_data['content']).decode('utf-8')\<close> inside
  \<^verbatim>\<open>try ... except Exception\<close>: a value that is not a string raises in \<^verbatim>\<open>b64decode\<close>, which
  the handler catches like any decoding error.
\<close>

fun decode_content :: "'w host \<Rightarrow> json \<Rightarrow> string option" where
  "decode_content h (JStr c) = b64decode_utf8 h c"
| "decode_content h _ = None"

text \<open>The loop \<^verbatim>\<open>for readme_name in readme_names\<close>, on the names still to try.\<close>

fun try_readme_names ::
  "'w host \<Rightarrow> string \<Rightarrow> string \<Rightarrow> string list \<Rightarrow> 'w scraper \<Rightarrow> (string option, 'w) run"
where
  "try_readme_names h username repo [] s = Some (Inr None, s)"
| "try_readme_names h username repo (readme_name # rest) s =
     (case make_api_request h
             (base_api_url @ ''/repos/'' @ username @ ''/'' @ repo @ ''/contents/'' @ readme_name)
             None s of
        None \<Rightarrow> None
      | Some (Inl e, s1) \<Rightarrow> Some (Inl e, s1)
      | Some (Inr readme_data, s1) \<Rightarrow>
          if \<not> truthy readme_data then try_readme_names h username repo rest s1
          else (case py_get readme_data ''content'' JNull of
                  Inl e \<Rightarrow> Some (Inl e, s1)
                | Inr c \<Rightarrow>
                    if \<not> truthy c then try_readme_names h username repo rest s1
                    else (case decode_content h c of
                            Some content \<Rightarrow> Some (Inr (Some content), s1)
                          | None \<Rightarrow> try_readme_names h username repo rest s1)))"

definition get_readme_content ::
  "'w host \<Rightarrow> string \<Rightarrow> string \<Rightarrow> string \<Rightarrow> 'w scraper \<Rightarrow> (string option, 'w) run"
where
  "get_readme_content h username repo branch s = try_readme_names h username repo readme_names s"

definition get_profile_readme :: "'w host \<Rightarrow> string \<Rightarrow> 'w scraper \<Rightarrow> (string option, 'w) run" where
  "get_profile_readme h username s = get_readme_content h username username ''main'' s"

section \<open>Profile fetcher (\<^verbatim>\<open>get_user_profile\<close>)\<close>

text \<open>
  \<^verbatim>\<open>f"https://twitter.com/{twitter_username}" if twitter_username else None\<close>
\<close>

fun twitter_field :: "json \<Rightarrow> error + string option" where
  "twitter_field (JStr t) = Inr (if t \<noteq> [] then Some (''https://twitter.com/'' @ t) else None)"
| "twitter_field j = (if truthy j then Inl SchemaError else Inr None)"

text \<open>The construction of the \<^verbatim>\<open>UserProfile\<close> from \<^verbatim>\<open>user_data\<close>.\<close>

definition build_profile :: "json \<Rightarrow> string option \<Rightarrow> string \<Rightarrow> error + UserProfile" where
  "build_profile user_data readme username =
     and_then (py_get user_data ''twitter_username'' JNull) (\<lambda>twitter_username.
     and_then (and_then (py_get user_data ''name'' JNull) opt_str_field) (\<lambda>v_name.
     and_then (and_then (py_get user_data ''bio'' JNull) opt_str_field) (\<lambda>v_bio.
     and_then (and_then (py_get user_data ''company'' JNull) opt_str_field) (\<lambda>v_company.
     and_then (and_then (py_get user_data ''blog'' JNull) opt_str_field) (\<lambda>v_website.
     and_then (twitter_field twitter_username) (\<lambda>v_twitter.
     and_then (and_then (py_get user_data ''location'' JNull) opt_str_field) (\<lambda>v_location.
     and_then (and_then (py_get user_data ''email'' JNull) opt_str_field) (\<lambda>v_email.
     and_then (and_then (py_get user_data ''public_repos'' (JInt 0)) int_field) (\<lambda>v_public_repos.
     and_then (and_then (py_get user_data ''followers'' (JInt 0)) int_field) (\<lambda>v_followers.
     and_then (and_then (py_get user_data ''following'' (JInt 0)) int_field) (\<lambda>v_following.
     and_then (and_then (py_get user_data ''avatar_url'' JNull) opt_str_field) (\<lambda>v_avatar_url.
     and_then (and_then (py_get user_data ''login'' (JStr username)) str_field) (\<lambda>v_login.
     Inr \<lparr> name = v_name, bio = v_bio, company = v_company, website = v_website,
           twitter = v_twitter, location = v_location, email = v_email,
           public_repos = v_public_repos, followers = v_followers, following = v_following,
           profile_readme = readme, avatar_url = v_avatar_url, login = v_login \<rparr>)))))))))))))"

definition get_user_profile ::
  "'w host \<Rightarrow> string \<Rightarrow> 'w scraper \<Rightarrow> (UserProfile option, 'w) run"
where
  "get_user_profile h username s =
     (case make_api_request h (base_api_url @ ''/users/'' @ username) None s of
        None \<Rightarrow> None
      | Some (Inl e, s1) \<Rightarrow> Some (Inl e, s1)
      | Some (Inr user_data, s1) \<Rightarrow>
          if \<not> truthy user_data then Some (Inr None, s1)
          else (case get_profile_readme h username s1 of
                  None \<Rightarrow> None
                | Some (Inl e, s2) \<Rightarrow> Some (Inl e, s2)
                | Some (Inr readme, s2) \<Rightarrow>
                    (case build_profile user_data readme username of
                       Inl e \<Rightarrow> Some (Inl e, s2)
                     | Inr p \<Rightarrow> Some (Inr (Some p), s2))))"

section \<open>Repository fetcher (\<^verbatim>\<open>get_repository_languages\<close>, \<^verbatim>\<open>get_user_repositories\<close>)\<close>

text \<open>\<^verbatim>\<open>languages_data if languages_data else {}\<close>, as a \<^verbatim>\<open>Dict[str, int]\<close>.\<close>

fun languages_field :: "json \<Rightarrow> error + int dict" where
  "languages_field (JDict d) = int_dict_field d"
| "languages_field j = (if truthy j then Inl SchemaError else Inr [])"

definition get_repository_languages ::
  "'w host \<Rightarrow> string \<Rightarrow> string \<Rightarrow> 'w scraper \<Rightarrow> (int dict, 'w) run"
where
  "get_repository_languages h username repo s =
     (case make_api_request h
             (base_api_url @ ''/repos/'' @ username @ ''/'' @ repo @ ''/languages'') None s of
        None \<Rightarrow> None
      | Some (Inl e, s1) \<Rightarrow> Some (Inl e, s1)
      | Some (Inr languages_data, s1) \<Rightarrow>
          (case languages_field languages_data of
             Inl e \<Rightarrow> Some (Inl e, s1)
           | Inr langs \<Rightarrow> Some (Inr langs, s1)))"

definition per_page :: int where
  "per_page = 100"

definition listing_params :: "int \<Rightarrow> (string \<times> param) list" where
  "listing_params page =
     [(''page'', PInt page), (''per_page'', PInt per_page),
      (''sort'', PStr ''updated''), (''direction'', PStr ''desc'')]"

text \<open>The construction of the \<^verbatim>\<open>Repository\<close> from \<^verbatim>\<open>repo_data\<close>.\<close>

definition build_repository ::
  "json \<Rightarrow> string \<Rightarrow> string \<Rightarrow> string option \<Rightarrow> int dict \<Rightarrow> error + Repository"
where
  "build_repository repo_data v_name v_branch readme langs =
     and_then (and_then (py_get repo_data ''description'' JNull) opt_str_field) (\<lambda>v_about.
     and_then (and_then (py_get repo_data ''description'' JNull) opt_str_field) (\<lambda>v_description.
     and_then (and_then (py_get repo_data ''html_url'' (JStr [])) str_field) (\<lambda>v_url.
     and_then (and_then (py_get repo_data ''stargazers_count'' (JInt 0)) int_field) (\<lambda>v_stars.
     and_then (and_then (py_get repo_data ''forks_count'' (JInt 0)) int_field) (\<lambda>v_forks.
     and_then (and_then (py_get repo_data ''fork'' (JBool False)) bool_field) (\<lambda>v_is_fork.
     Inr \<lparr> repo_name = v_name, about = v_about, description = v_description,
           readme_content = readme, languages = langs, url = v_url, stars = v_stars,
           forks = v_forks, is_fork = v_is_fork, default_branch = v_branch \<rparr>))))))"

text \<open>The body of \<^verbatim>\<open>for repo_data in repos_data\<close>, giving the repository it appends.\<close>

definition scrape_repository ::
  "'w host \<Rightarrow> string \<Rightarrow> json \<Rightarrow> 'w scraper \<Rightarrow> (Repository, 'w) run"
where
  "scrape_repository h username repo_data s =
     (case and_then (py_get repo_data ''name'' (JStr [])) str_field of
        Inl e \<Rightarrow> Some (Inl e, s)
      | Inr v_name \<Rightarrow>
     (case and_then (py_get repo_data ''default_branch'' (JStr ''main'')) str_field of
        Inl e \<Rightarrow> Some (Inl e, s)
      | Inr v_branch \<Rightarrow>
     (case get_readme_content h username v_name v_branch s of
        None \<Rightarrow> None
      | Some (Inl e, s1) \<Rightarrow> Some (Inl e, s1)
      | Some (Inr readme, s1) \<Rightarrow>
     (case get_repository_languages h username v_name s1 of
        None \<Rightarrow> None
      | Some (Inl e, s2) \<Rightarrow> Some (Inl e, s2)
      | Some (Inr langs, s2) \<Rightarrow>
          (let s3 = s2\<lparr> world := time_sleep h Tenth (world s2),
                        trace := trace s2 @ [Sleep Tenth] \<rparr>
           in case build_repository repo_data v_name v_branch readme langs of
                Inl e \<Rightarrow> Some (Inl e, s3)
              | Inr repository \<Rightarrow> Some (Inr repository, s3))))))"

text \<open>The loop \<^verbatim>\<open>for repo_data in repos_data\<close>, appending to \<^verbatim>\<open>repositories\<close>.\<close>

fun scrape_page ::
  "'w host \<Rightarrow> string \<Rightarrow> json list \<Rightarrow> Repository list \<Rightarrow> 'w scraper \<Rightarrow> (Repository list, 'w) run"
where
  "scrape_page h username [] repos s = Some (Inr repos, s)"
| "scrape_page h username (repo_data # rest) repos s =
     (case scrape_repository h username repo_data s of
        None \<Rightarrow> None
      | Some (Inl e, s1) \<Rightarrow> Some (Inl e, s1)
      | Some (Inr repository, s1) \<Rightarrow> scrape_page h username rest (repos @ [repository]) s1)"

text \<open>The loop \<^verbatim>\<open>while True\<close> of \<^verbatim>\<open>get_user_repositories\<close>, from a page number on.\<close>

partial_function (option) fetch_pages ::
  "'w host \<Rightarrow> string \<Rightarrow> int \<Rightarrow> Repository list \<Rightarrow> 'w scraper \<Rightarrow> (Repository list, 'w) run"
where
  "fetch_pages h username page repos s =
     (case make_api_request h (base_api_url @ ''/users/'' @ username @ ''/repos'')
             (Some (listing_params page)) s of
        None \<Rightarrow> None
      | Some (Inl e, s1) \<Rightarrow> Some (Inl e, s1)
      | Some (Inr repos_data, s1) \<Rightarrow>
          if \<not> truthy repos_data then Some (Inr repos, s1)
          else (case py_len repos_data of
                  Inl e \<Rightarrow> Some (Inl e, s1)
                | Inr n \<Rightarrow>
                    if n = 0 then Some (Inr repos, s1)
                    else (case py_iter repos_data of
                            Inl e \<Rightarrow> Some (Inl e, s1)
                          | Inr items \<Rightarrow>
                              (case scrape_page h username items repos s1 of
                                 None \<Rightarrow> None
                               | Some (Inl e, s2) \<Rightarrow> Some (Inl e, s2)
                               | Some (Inr repos', s2) \<Rightarrow>
                                   if n < per_page then Some (Inr repos', s2)
                                   else fetch_pages h username (page + 1) repos' s2))))"

definition get_user_repositories ::
  "'w host \<Rightarrow> string \<Rightarrow> 'w scraper \<Rightarrow> (Repository list, 'w) run"
where
  "get_user_repositories h username s = fetch_pages h username 1 [] s"

section \<open>Persistence (\<^verbatim>\<open>FileHandler.save_to_json\<close>)\<close>

text \<open>\<^verbatim>\<open>os.path.join\<close> of two POSIX path components.\<close>

definition path_join :: "string \<Rightarrow> string \<Rightarrow> string" where
  "path_join a b =
     (if starts_with b ''/'' then b
      else if a = [] \<or> last a = CHR ''/'' then a @ b
      else a @ ''/'' @ b)"

text \<open>\<open>Inr\<close> is the path returned, \<open>Inl\<close> the text of the exception re-raised.\<close>

definition save_to_json ::
  "'w filesystem \<Rightarrow> string \<Rightarrow> CompleteUserData \<Rightarrow> string \<Rightarrow> 'w \<Rightarrow> (string + string) \<times> 'w"
where
  "save_to_json fs dir data username w =
     (let timestamp = now_strftime fs w;
          filename = username @ ''_profile_'' @ timestamp @ ''.json'';
          filepath = path_join dir filename;
          wrote = write_json fs filepath data w
      in case fst wrote of
           None \<Rightarrow> (Inr filepath, snd wrote)
         | Some msg \<Rightarrow> (Inl msg, snd wrote))"

section \<open>Result assembler (\<^verbatim>\<open>scrape_user_complete\<close>)\<close>

definition scrape_user_complete ::
  "'w host \<Rightarrow> 'w filesystem \<Rightarrow> string \<Rightarrow> bool option \<Rightarrow> 'w scraper \<Rightarrow> (CompleteUserData, 'w) run"
where
  "scrape_user_complete h fs username save_opt s =
     (case get_user_profile h username s of
        None \<Rightarrow> None
      | Some (Inl e, s1) \<Rightarrow> Some (Inl e, s1)
      | Some (Inr None, s1) \<Rightarrow>
          Some (Inl (Exception (''Failed to fetch profile for: '' @ username)), s1)
      | Some (Inr (Some prof), s1) \<Rightarrow>
          (case get_user_repositories h username s1 of
             None \<Rightarrow> None
           | Some (Inl e, s2) \<Rightarrow> Some (Inl e, s2)
           | Some (Inr repos, s2) \<Rightarrow>
               (let stats = calculate_statistics repos;
                    meta = \<lparr> scraped_at = now_isoformat h (world s2),
                             scraper_version = ''1.0.0'',
                             total_api_requests = api_requests_count s2,
                             saved_to_file = None,
                             save_error = None \<rparr>;
                    complete_data = \<lparr> profile = prof, repositories = repos,
                                      statistics = stats, metadata = meta \<rparr>;
                    should_save = (case save_opt of Some b \<Rightarrow> b | None \<Rightarrow> save_to_file s2)
                in if should_save then
                     (let saved = save_to_json fs (output_dir s2) complete_data username (world s2);
                          s3 = s2\<lparr> world := snd saved \<rparr>
                      in case fst saved of
                           Inr filepath \<Rightarrow>
                             Some (Inr (complete_data\<lparr> metadata := meta\<lparr> saved_to_file := Some filepath \<rparr> \<rparr>), s3)
                         | Inl msg \<Rightarrow>
                             Some (Inr (complete_data\<lparr> metadata := meta\<lparr> save_error := Some msg \<rparr> \<rparr>), s3))
                   else Some (Inr complete_data, s2))))"

section \<open>Notions used to state the properties\<close>

text \<open>The distinct elements of a list, in the order of their first occurrence.\<close>

fun first_seen :: "'a list \<Rightarrow> 'a list" where
  "first_seen [] = []"
| "first_seen (x # xs) = x # first_seen (filter (\<lambda>y. y \<noteq> x) xs)"

text \<open>Every language name of every repository, in the order the aggregation reads them.\<close>

definition all_language_names :: "Repository list \<Rightarrow> string list" where
  "all_language_names repos = concat (map (\<lambda>repo. map fst (languages repo)) repos)"

text \<open>The bytes a repository reports for a language (\<open>0\<close> when it does not list it).\<close>

definition lang_bytes :: "Repository \<Rightarrow> string \<Rightarrow> int" where
  "lang_bytes repo lang = sum_list (map snd (filter (\<lambda>item. fst item = lang) (languages repo)))"

text \<open>The number of HTTP calls in a record of events.\<close>

fun is_get :: "event \<Rightarrow> bool" where
  "is_get (Get req) = True"
| "is_get (Sleep d) = False"

definition calls :: "event list \<Rightarrow> int" where
  "calls evs = int (length (filter is_get evs))"

text \<open>The events between two states of the scraper, the second reached from the first.\<close>

definition events_since :: "'w scraper \<Rightarrow> 'w scraper \<Rightarrow> event list" where
  "events_since s s' = drop (length (trace s)) (trace s')"

text \<open>The requests for a page of the repository listing of a user.\<close>

definition listing_url :: "string \<Rightarrow> string" where
  "listing_url username = base_api_url @ ''/users/'' @ username @ ''/repos''"

fun is_page_request :: "string \<Rightarrow> event \<Rightarrow> bool" where
  "is_page_request username (Get req) = (req_url req = listing_url username)"
| "is_page_request username (Sleep d) = False"

definition page_requests :: "string \<Rightarrow> event list \<Rightarrow> nat" where
  "page_requests username evs = length (filter (is_page_request username) evs)"

text \<open>
  A call of \<^verbatim>\<open>session.get\<close> that does not trip the rate limit, what
  \<^verbatim>\<open>_make_api_request\<close> returns for it, and the scraper after the call.
\<close>

fun plain :: "http_result \<Rightarrow> bool" where
  "plain RequestException = True"
| "plain (Response r) = (\<not> rate_limited r)"

fun result_json :: "http_result \<Rightarrow> json" where
  "result_json RequestException = JNull"
| "result_json (Response r) =
     (if 400 \<le> status_code r \<and> status_code r < 600 then JNull
      else case json_body r of None \<Rightarrow> JNull | Some j \<Rightarrow> j)"

definition sent :: "string \<Rightarrow> (string \<times> param) list option \<Rightarrow> 'w \<Rightarrow> 'w scraper \<Rightarrow> 'w scraper" where
  "sent api_url params w s =
     s\<lparr> api_requests_count := api_requests_count s + 1, world := w,
        trace := trace s @ [Get \<lparr> req_url = api_url, req_params = params \<rparr>] \<rparr>"

definition slept :: "'w host \<Rightarrow> duration \<Rightarrow> 'w scraper \<Rightarrow> 'w scraper" where
  "slept h d s = s\<lparr> world := time_sleep h d (world s), trace := trace s @ [Sleep d] \<rparr>"

text \<open>What a run returned, what it raised, and the scraper it left.\<close>

fun returned :: "('a, 'w) run \<Rightarrow> 'a option" where
  "returned (Some (Inr x, s)) = Some x"
| "returned _ = None"

fun raised :: "('a, 'w) run \<Rightarrow> error option" where
  "raised (Some (Inl e, s)) = Some e"
| "raised _ = None"

fun left :: "('a, 'w) run \<Rightarrow> 'w scraper option" where
  "left (Some (r, s)) = Some s"
| "left None = None"

section \<open>A simulated host\<close>

text \<open>
  A world for concrete runs: a clock in seconds and a queue of responses to serve first.
  Once the queue is empty the response is a function of the request.
\<close>

record sim =
  clock :: int
  pending :: "http_result list"

definition toy_b64decode :: "string \<Rightarrow> string option" where
  "toy_b64decode c = map_of [(''aGVsbG8='', ''hello''), (''Zm9v'', ''foo''), (''YmFy'', ''bar'')] c"

definition sim_host :: "(request \<Rightarrow> http_result) \<Rightarrow> sim host" where
  "sim_host respond =
     \<lparr> session_get = (\<lambda>req w. case pending w of
                                  [] \<Rightarrow> (respond req, w)
                                | r # rest \<Rightarrow> (r, w\<lparr> pending := rest \<rparr>)),
       time_time = clock,
       time_sleep = (\<lambda>d w. case d of Seconds n \<Rightarrow> w\<lparr> clock := clock w + n \<rparr> | Tenth \<Rightarrow> w),
       now_isoformat = (\<lambda>w. ''2025-06-01T12:00:00''),
       b64decode_utf8 = toy_b64decode \<rparr>"

definition disk :: "string option \<Rightarrow> sim filesystem" where
  "disk failure =
     \<lparr> now_strftime = (\<lambda>w. ''20250601_120000''),
       write_json = (\<lambda>filepath data w. (failure, w)) \<rparr>"

definition ok :: "json \<Rightarrow> http_result" where
  "ok j = Response \<lparr> status_code = 200, body_text = [], ratelimit_reset = ResetAbsent,
                    json_body = Some j \<rparr>"

definition not_found :: http_result where
  "not_found = Response \<lparr> status_code = 404, body_text = ''Not Found'',
                         ratelimit_reset = ResetAbsent,
                         json_body = Some (JDict [(''message'', JStr ''Not Found'')]) \<rparr>"

definition limit_hit :: "reset_header \<Rightarrow> http_result" where
  "limit_hit reset = Response \<lparr> status_code = 403, body_text = ''API Rate Limit exceeded'',
                               ratelimit_reset = reset,
                               json_body = Some (JDict [(''message'', JStr ''API rate limit exceeded'')]) \<rparr>"

definition start :: "sim scraper" where
  "start = new_scraper False ''output'' \<lparr> clock = 1000, pending = [] \<rparr>"

text \<open>The page number a request asks for.\<close>

definition requested_page :: "request \<Rightarrow> int" where
  "requested_page req =
     (case req_params req of
        None \<Rightarrow> 0
      | Some ps \<Rightarrow> (case map_of ps ''page'' of Some (PInt p) \<Rightarrow> p | _ \<Rightarrow> 0))"

text \<open>
  A user \<^verbatim>\<open>u\<close> whose listing has pages of the given sizes, every repository named \<^verbatim>\<open>r\<close>;
  every other endpoint answers 404.
\<close>

definition listed_repo :: json where
  "listed_repo = JDict [(''name'', JStr ''r'')]"

definition paged_listing :: "nat list \<Rightarrow> request \<Rightarrow> http_result" where
  "paged_listing sizes req =
     (if req_url req = listing_url ''u'' then
        (let p = requested_page req
         in if 1 \<le> p \<and> p \<le> int (length sizes)
            then ok (JList (replicate (sizes ! (nat p - 1)) listed_repo))
            else ok (JList []))
      else not_found)"

text \<open>
  A user \<^verbatim>\<open>u\<close> with a profile and one repository \<^verbatim>\<open>r\<close>, in which \<^verbatim>\<open>README\<close> is a
  directory: the contents endpoint answers a directory with the list of its entries.
\<close>

definition github_u :: "request \<Rightarrow> http_result" where
  "github_u req =
     (if req_url req = base_api_url @ ''/users/u'' then ok (JDict [(''login'', JStr ''u'')])
      else if req_url req = listing_url ''u'' then
        (if requested_page req = 1 then ok (JList [listed_repo]) else ok (JList []))
      else if req_url req = base_api_url @ ''/repos/u/r/contents/README''
        then ok (JList [JDict [(''name'', JStr ''index.md''), (''type'', JStr ''file'')]])
      else not_found)"

text \<open>A user \<^verbatim>\<open>u\<close> with a profile and nothing else.\<close>

definition github_bare :: "request \<Rightarrow> http_result" where
  "github_bare req =
     (if req_url req = base_api_url @ ''/users/u'' then ok (JDict [(''login'', JStr ''u'')])
      else not_found)"

text \<open>
  The second state is reached from the first: its record of events extends the first's,
  the request counter has grown by the number of calls in between, and the settings of
  the object are unchanged.
\<close>

definition follows :: "'w scraper \<Rightarrow> 'w scraper \<Rightarrow> bool" where
  "follows s s' \<longleftrightarrow>
     take (length (trace s)) (trace s') = trace s \<and>
     api_requests_count s' = api_requests_count s + calls (events_since s s') \<and>
     save_to_file s' = save_to_file s \<and>
     output_dir s' = output_dir s"

text \<open>The count a run reports in its metadata, and the calls a run dispatched.\<close>

definition reported_calls :: "(CompleteUserData, 'w) run \<Rightarrow> int option" where
  "reported_calls run = map_option (\<lambda>d. total_api_requests (metadata d)) (returned run)"

definition dispatched_calls :: "'w scraper \<Rightarrow> ('a, 'w) run \<Rightarrow> int option" where
  "dispatched_calls s run = map_option (\<lambda>s'. calls (events_since s s')) (left run)"

text \<open>The \<^verbatim>\<open>Repository\<close> built for \<open>listed_repo\<close> when it has no README and no languages.\<close>

definition plain_repo :: Repository where
  "plain_repo = \<lparr> repo_name = ''r'', about = None, description = None, readme_content = None,
                  languages = [], url = [], stars = 0, forks = 0, is_fork = False,
                  default_branch = ''main'' \<rparr>"

text \<open>The profile of the user \<^verbatim>\<open>u\<close> of the simulated hosts.\<close>

definition bare_profile :: UserProfile where
  "bare_profile = \<lparr> name = None, bio = None, company = None, website = None, twitter = None,
       location = None, email = None, public_repos = 0, followers = 0, following = 0,
       profile_readme = None, avatar_url = None, login = ''u'' \<rparr>"

text \<open>
  A scraper whose first request is answered with a rate-limit response, the reset 5 seconds
  after the clock.
\<close>

definition limited_start :: "sim scraper" where
  "limited_start = new_scraper False ''output''
     \<lparr> clock = 1000, pending = [limit_hit (ResetInt 1005)] \<rparr>"

text \<open>Two runs on the same scraper object, one after the other.\<close>

definition first_run :: "(CompleteUserData, sim) run" where
  "first_run = scrape_user_complete (sim_host github_bare) (disk None) ''u'' (Some False) start"

definition reused_scraper :: "sim scraper" where
  "reused_scraper = (case left first_run of Some s \<Rightarrow> s | None \<Rightarrow> start)"

definition second_run :: "(CompleteUserData, sim) run" where
  "second_run = scrape_user_complete (sim_host github_bare) (disk None) ''u'' (Some False) reused_scraper"

section \<open>Properties of the statistics aggregation\<close>

lemma keys_dict_set:
  "map fst (dict_set k v d) = (if k \<in> set (map fst d) then map fst d else map fst d @ [k])"
  by (induction d) force+

lemma map_of_dict_set: "map_of (dict_set k v d) = (map_of d)(k \<mapsto> v)"
  by (induction d) (auto simp: fun_eq_iff)

lemma sum_dict_set:
  "sum_list (map snd (dict_set k (dict_get d k 0 + b) d)) = sum_list (map snd d) + (b::int)"
  by (induction d) (auto simp: dict_get_def)

lemma set_first_seen: "set (first_seen xs) = set xs"
  by (induction xs rule: first_seen.induct) auto

lemma distinct_first_seen: "distinct (first_seen xs)"
  by (induction xs rule: first_seen.induct) (auto simp: set_first_seen)

lemma first_seen_append:
  "first_seen (xs @ ys) = first_seen xs @ first_seen (filter (\<lambda>k. k \<notin> set xs) ys)"
proof (induction xs arbitrary: ys rule: first_seen.induct)
  case 1
  then show ?case by simp
next
  case (2 x xs)
  have "filter (\<lambda>k. k \<notin> set (filter (\<lambda>y. y \<noteq> x) xs)) (filter (\<lambda>y. y \<noteq> x) ys)
      = filter (\<lambda>k. k \<noteq> x \<and> k \<notin> set xs) ys"
    by (induction ys) auto
  then show ?case using 2[of "filter (\<lambda>y. y \<noteq> x) ys"] by simp
qed

lemma first_seen_distinct: "distinct xs \<Longrightarrow> first_seen xs = xs"
proof (induction xs)
  case Nil
  then show ?case by simp
next
  case (Cons x xs)
  then have "filter (\<lambda>y. y \<noteq> x) xs = xs"
    by (auto simp: filter_id_conv)
  then show ?case using Cons by simp
qed

lemma keys_add_languages:
  "distinct (map fst d) \<Longrightarrow>
   map fst (add_languages d items) = first_seen (map fst d @ map fst items)"
proof (induction d items rule: add_languages.induct)
  case (1 d)
  then show ?case by (simp add: first_seen_distinct)
next
  case (2 d lang b items)
  let ?d' = "dict_set lang (dict_get d lang 0 + b) d"
  have dist: "distinct (map fst ?d')"
    using 2(2) by (simp add: keys_dict_set)
  have "map fst (add_languages d ((lang, b) # items)) = first_seen (map fst ?d' @ map fst items)"
    using 2(1)[OF dist] by simp
  also have "\<dots> = first_seen (map fst d @ map fst ((lang, b) # items))"
  proof (cases "lang \<in> set (map fst d)")
    case True
    then have "filter (\<lambda>k. k \<notin> set (map fst d)) (lang # map fst items)
             = filter (\<lambda>k. k \<notin> set (map fst d)) (map fst items)" by simp
    then show ?thesis using True
      by (simp only: keys_dict_set first_seen_append list.map fst_conv if_True)
  next
    case False
    then show ?thesis by (simp add: keys_dict_set)
  qed
  finally show ?case .
qed

lemma keys_aggregate_languages:
  "distinct (map fst d) \<Longrightarrow>
   map fst (aggregate_languages d repos) = first_seen (map fst d @ all_language_names repos)"
proof (induction repos arbitrary: d)
  case Nil
  then show ?case by (simp add: all_language_names_def first_seen_distinct)
next
  case (Cons r rs)
  have dist: "distinct (map fst (add_languages d (languages r)))"
    by (simp add: keys_add_languages[OF Cons.prems] distinct_first_seen)
  have "map fst (aggregate_languages d (r # rs))
      = first_seen (map fst (add_languages d (languages r)) @ all_language_names rs)"
    using Cons.IH[OF dist] by simp
  also have "\<dots> = first_seen (first_seen (map fst d @ map fst (languages r)) @ all_language_names rs)"
    by (simp add: keys_add_languages[OF Cons.prems])
  also have "\<dots> = first_seen ((map fst d @ map fst (languages r)) @ all_language_names rs)"
    by (simp only: first_seen_append[of "first_seen _"] first_seen_append[of "_ @ _"]
          set_first_seen first_seen_distinct[OF distinct_first_seen])
  finally show ?case by (simp add: all_language_names_def)
qed

lemma sum_add_languages:
  "sum_list (map snd (add_languages d items)) = sum_list (map snd d) + sum_list (map snd items)"
  by (induction d items rule: add_languages.induct) (simp_all add: sum_dict_set)

lemma sum_aggregate_languages:
  "sum_list (map snd (aggregate_languages d repos))
     = sum_list (map snd d) + sum_list (map (\<lambda>repo. sum_list (map snd (languages repo))) repos)"
  by (induction repos arbitrary: d) (simp_all add: sum_add_languages)

lemma get_add_languages:
  "dict_get (add_languages d items) lang 0
     = dict_get d lang 0 + sum_list (map snd (filter (\<lambda>item. fst item = lang) items))"
  by (induction d items rule: add_languages.induct)
     (auto simp: dict_get_def map_of_dict_set)

lemma get_aggregate_languages:
  "dict_get (aggregate_languages d repos) lang 0
     = dict_get d lang 0 + sum_list (map (\<lambda>repo. lang_bytes repo lang) repos)"
  by (induction repos arbitrary: d) (simp_all add: get_add_languages lang_bytes_def)

lemma filter_key_absent:
  "k \<notin> set (map fst d) \<Longrightarrow> filter (\<lambda>item. fst item = k) d = []"
  by (induction d) auto

lemma sum_key_distinct:
  "distinct (map fst d) \<Longrightarrow>
   sum_list (map snd (filter (\<lambda>item. fst item = k) d)) = dict_get d k (0::int)"
proof (induction d)
  case Nil
  then show ?case by (simp add: dict_get_def)
next
  case (Cons p d)
  show ?case
  proof (cases "fst p = k")
    case True
    then have "k \<notin> set (map fst d)" using Cons.prems by auto
    then show ?thesis using True by (cases p) (simp add: filter_key_absent dict_get_def)
  next
    case False
    then show ?thesis using Cons by (cases p) (simp add: dict_get_def)
  qed
qed

text \<open>
  For a dictionary, whose keys are distinct, \<open>lang_bytes\<close> is the entry of the language.
\<close>

lemma lang_bytes_distinct:
  "distinct (map fst (languages repo)) \<Longrightarrow>
   lang_bytes repo lang = dict_get (languages repo) lang 0"
  by (simp add: lang_bytes_def sum_key_distinct)

lemma lang_bytes_absent:
  "lang \<notin> set (map fst (languages repo)) \<Longrightarrow> lang_bytes repo lang = 0"
  by (simp add: lang_bytes_def filter_key_absent)

lemma sum_present_only:
  "sum_list (map (\<lambda>repo. lang_bytes repo lang)
                 (filter (\<lambda>repo. lang \<in> set (map fst (languages repo))) repos))
     = sum_list (map (\<lambda>repo. lang_bytes repo lang) repos)"
  by (induction repos) (simp_all add: lang_bytes_absent)

lemma map_of_present:
  "k \<in> set (map fst d) \<Longrightarrow> map_of d k = Some (dict_get d k dflt)"
  by (cases "map_of d k") (auto simp: dict_get_def map_of_eq_None_iff)

lemma count_ones: "sum_list (map (\<lambda>x. 1) xs) = int (length xs)"
  by (induction xs) simp_all

text \<open>
  C1. For every repository sequence, the statistics hold the number of repositories, the
  number of repositories whose README text is present and not empty, the sum of the stars
  and the sum of the forks.
\<close>

theorem calculate_statistics_totals:
  "total_repositories (calculate_statistics R) = int (length R) \<and>
   repositories_with_readme (calculate_statistics R)
     = int (card {i. i < length R \<and> readme_content (R ! i) \<noteq> None
                              \<and> readme_content (R ! i) \<noteq> Some []}) \<and>
   total_stars (calculate_statistics R) = (\<Sum>i<length R. stars (R ! i)) \<and>
   total_forks (calculate_statistics R) = (\<Sum>i<length R. forks (R ! i))"
proof -
  have truthy: "truthy_str v \<longleftrightarrow> v \<noteq> None \<and> v \<noteq> Some []" for v
    by (cases v) simp_all
  have readme: "repositories_with_readme (calculate_statistics R)
      = int (length (filter (\<lambda>repo. truthy_str (readme_content repo)) R))"
    by (simp add: calculate_statistics_def Let_def count_ones)
  have nth_sum: "sum_list (map f R) = (\<Sum>i<length R. f (R ! i))" for f :: "Repository \<Rightarrow> int"
    by (simp add: sum_list_sum_nth atLeast0LessThan)
  show ?thesis
    by (simp add: readme length_filter_conv_card truthy)
       (simp add: calculate_statistics_def Let_def nth_sum)
qed

text \<open>
  C7. The list \<open>unique_languages\<close> is the list of the keys of \<open>language_distribution\<close>, in
  the order of the dictionary, which is the order in which the languages are first seen;
  no language is listed twice.
\<close>

theorem unique_languages_are_keys:
  "unique_languages (calculate_statistics R) = map fst (language_distribution (calculate_statistics R)) \<and>
   set (unique_languages (calculate_statistics R)) = dom (map_of (language_distribution (calculate_statistics R))) \<and>
   distinct (unique_languages (calculate_statistics R)) \<and>
   unique_languages (calculate_statistics R) = first_seen (all_language_names R)"
proof -
  have keys: "map fst (aggregate_languages [] R) = first_seen (all_language_names R)"
    using keys_aggregate_languages[of "[]" R] by simp
  show ?thesis
    by (simp add: calculate_statistics_def Let_def keys distinct_first_seen dom_map_of_conv_image_fst
          set_first_seen flip: set_map)
qed

text \<open>
  C8. A language that some repository lists has an entry in \<open>language_distribution\<close>, and
  the entry is the sum of its byte counts over the repositories that list it; no other
  language has an entry. The sum of all entries is the sum of all byte counts of all
  repositories.
\<close>

theorem language_distribution_sums:
  "map_of (language_distribution (calculate_statistics R)) lang
     = (if lang \<in> set (all_language_names R)
        then Some (sum_list (map (\<lambda>repo. lang_bytes repo lang)
                     (filter (\<lambda>repo. lang \<in> set (map fst (languages repo))) R)))
        else None) \<and>
   sum_list (map snd (language_distribution (calculate_statistics R)))
     = sum_list (map (\<lambda>repo. sum_list (map snd (languages repo))) R)"
proof -
  let ?d = "aggregate_languages [] R"
  have keys: "set (map fst ?d) = set (all_language_names R)"
    using keys_aggregate_languages[of "[]" R] by (simp add: set_first_seen)
  have entry: "dict_get ?d lang 0 = sum_list (map (\<lambda>repo. lang_bytes repo lang) R)"
    using get_aggregate_languages[of "[]" R lang] by (simp add: dict_get_def)
  have "map_of ?d lang = Some (sum_list (map (\<lambda>repo. lang_bytes repo lang) R))"
    if "lang \<in> set (all_language_names R)"
    using that map_of_present[of lang ?d 0] keys entry by simp
  moreover have "map_of ?d lang = None" if "lang \<notin> set (all_language_names R)"
    using that keys by (simp add: map_of_eq_None_iff)
  moreover have "sum_list (map snd ?d) = sum_list (map (\<lambda>repo. sum_list (map snd (languages repo))) R)"
    using sum_aggregate_languages[of "[]" R] by simp
  ultimately show ?thesis
    by (simp add: calculate_statistics_def Let_def sum_present_only[simplified])
qed

section \<open>Properties of the HTTP client\<close>

lemma make_api_request_plain:
  assumes "plain (fst (session_get h \<lparr> req_url = api_url, req_params = params \<rparr> (world s)))"
  shows "make_api_request h api_url params s =
         Some (Inr (result_json (fst (session_get h \<lparr> req_url = api_url, req_params = params \<rparr> (world s)))),
               sent api_url params (snd (session_get h \<lparr> req_url = api_url, req_params = params \<rparr> (world s))) s)"
proof (cases "fst (session_get h \<lparr> req_url = api_url, req_params = params \<rparr> (world s))")
  case RequestException
  then show ?thesis
    by (subst make_api_request.simps) (simp add: sent_def Let_def)
next
  case (Response r)
  then show ?thesis using assms
    by (subst make_api_request.simps) (simp add: sent_def Let_def split: option.splits)
qed

lemma make_api_request_limited:
  assumes "fst (session_get h \<lparr> req_url = api_url, req_params = params \<rparr> (world s)) = Response r"
    and "rate_limited r"
  shows "make_api_request h api_url params s =
         (let s2 = sent api_url params (snd (session_get h \<lparr> req_url = api_url, req_params = params \<rparr> (world s))) s
          in case reset_epoch (ratelimit_reset r) of
               Inl e \<Rightarrow> Some (Inl e, s2)
             | Inr reset_time \<Rightarrow>
                 make_api_request h api_url params
                   (slept h (Seconds (max (reset_time - time_time h (world s2)) 60)) s2))"
  using assms
  by (subst make_api_request.simps) (simp add: sent_def slept_def Let_def split: sum.splits)

lemma followsI:
  assumes "trace s' = trace s @ evs"
    and "api_requests_count s' = api_requests_count s + calls evs"
    and "save_to_file s' = save_to_file s" and "output_dir s' = output_dir s"
  shows "follows s s'"
  using assms by (simp add: follows_def events_since_def)

lemma followsD:
  assumes "follows s s'"
  shows "trace s' = trace s @ events_since s s'"
  using assms append_take_drop_id[of "length (trace s)" "trace s'"]
  by (simp add: follows_def events_since_def)

lemma follows_refl: "follows s s"
  by (rule followsI[where evs = "[]"]) (simp_all add: calls_def)

lemma calls_append: "calls (xs @ ys) = calls xs + calls ys"
  by (simp add: calls_def)

lemma follows_trans:
  assumes "follows s s'" and "follows s' s''"
  shows "follows s s''"
proof (rule followsI[where evs = "events_since s s' @ events_since s' s''"])
  show "trace s'' = trace s @ events_since s s' @ events_since s' s''"
    using followsD[OF assms(1)] followsD[OF assms(2)] by simp
qed (use assms in \<open>simp_all add: follows_def calls_append\<close>)

lemma follows_sent: "follows s (sent api_url params w s)"
  by (rule followsI[where evs = "[Get \<lparr> req_url = api_url, req_params = params \<rparr>]"])
     (simp_all add: sent_def calls_def)

lemma follows_slept: "follows s (slept h d s)"
  by (rule followsI[where evs = "[Sleep d]"]) (simp_all add: slept_def calls_def)

lemma follows_world: "follows s (s\<lparr> world := w \<rparr>)"
  by (rule followsI[where evs = "[]"]) (simp_all add: calls_def)

lemma make_api_request_follows_aux:
  assumes "make_api_request h0 api_url0 params0 s0 = Some y0"
  shows "follows s0 (snd y0)"
proof (rule make_api_request.raw_induct[where P = "\<lambda>h api_url params s y. follows s (snd y)", OF _ assms],
       goal_cases)
  case (1 rec h api_url params s y)
  let ?got = "session_get h \<lparr> req_url = api_url, req_params = params \<rparr> (world s)"
  let ?s2 = "sent api_url params (snd ?got) s"
  have s2: "follows s ?s2" by (rule follows_sent)
  have eq: "s\<lparr>api_requests_count := api_requests_count s + 1, world := snd ?got,
              trace := trace s @ [Get \<lparr>req_url = api_url, req_params = params\<rparr>]\<rparr> = ?s2"
    by (simp add: sent_def)
  show ?case
  proof (cases "fst ?got")
    case RequestException
    then show ?thesis using 1(2) s2 by (auto simp: Let_def eq)
  next
    case (Response r)
    show ?thesis
    proof (cases "rate_limited r")
      case False
      then show ?thesis using 1(2) s2 Response
        by (auto simp: Let_def eq split: if_splits option.splits)
    next
      case True
      show ?thesis
      proof (cases "reset_epoch (ratelimit_reset r)")
        case (Inl e)
        then show ?thesis using 1(2) s2 Response True by (auto simp: Let_def eq)
      next
        case (Inr n)
        let ?s3 = "slept h (Seconds (max (n - time_time h (world ?s2)) 60)) ?s2"
        have "rec h api_url params ?s3 = Some y"
          using 1(2) Response True Inr by (simp add: Let_def eq slept_def)
        then have "follows ?s3 (snd y)" by (rule 1(1))
        then show ?thesis using follows_trans[OF s2 follows_trans[OF follows_slept]] by blast
      qed
    qed
  qed
qed

lemma make_api_request_follows:
  "make_api_request h api_url params s = Some (res, s') \<Longrightarrow> follows s s'"
  using make_api_request_follows_aux by fastforce

section \<open>The request counter follows the calls\<close>

lemma try_readme_names_follows:
  "try_readme_names h username repo names s = Some (res, s') \<Longrightarrow> follows s s'"
proof (induction names arbitrary: s)
  case Nil
  then show ?case by (simp add: follows_refl)
next
  case (Cons readme_name rest)
  let ?req = "make_api_request h
      (base_api_url @ ''/repos/'' @ username @ ''/'' @ repo @ ''/contents/'' @ readme_name) None s"
  obtain r1 s1 where req: "?req = Some (r1, s1)"
    using Cons.prems by (cases ?req) auto
  have s1: "follows s s1" using req by (rule make_api_request_follows)
  have "s' = s1 \<or> try_readme_names h username repo rest s1 = Some (res, s')"
    using Cons.prems req
    by (auto split: sum.splits if_splits option.splits)
  then show ?case
    using s1 Cons.IH follows_trans by blast
qed

lemma get_readme_content_follows:
  "get_readme_content h username repo branch s = Some (res, s') \<Longrightarrow> follows s s'"
  unfolding get_readme_content_def by (rule try_readme_names_follows)

lemma get_user_profile_follows:
  assumes "get_user_profile h username s = Some (res, s')"
  shows "follows s s'"
proof -
  let ?req = "make_api_request h (base_api_url @ ''/users/'' @ username) None s"
  obtain r1 s1 where req: "?req = Some (r1, s1)"
    using assms by (cases ?req) (auto simp: get_user_profile_def)
  have s1: "follows s s1" using req by (rule make_api_request_follows)
  have "s' = s1 \<or> (\<exists>r2. get_readme_content h username username ''main'' s1 = Some (r2, s'))"
    using assms req
    by (auto simp: get_user_profile_def get_profile_readme_def
             split: sum.splits if_splits option.splits)
  then show ?thesis
    using s1 get_readme_content_follows follows_trans by blast
qed

lemma get_repository_languages_follows:
  assumes "get_repository_languages h username repo s = Some (res, s')"
  shows "follows s s'"
proof -
  let ?req = "make_api_request h
      (base_api_url @ ''/repos/'' @ username @ ''/'' @ repo @ ''/languages'') None s"
  obtain r1 s1 where req: "?req = Some (r1, s1)"
    using assms by (cases ?req) (auto simp: get_repository_languages_def)
  have "s' = s1"
    using assms req by (auto simp: get_repository_languages_def split: sum.splits)
  then show ?thesis using req make_api_request_follows by blast
qed

lemma scrape_repository_follows:
  assumes "scrape_repository h username repo_data s = Some (res, s')"
  shows "follows s s'"
proof -
  have "s' = s \<or>
        (\<exists>v_name v_branch r1 s1. get_readme_content h username v_name v_branch s = Some (r1, s1) \<and>
           (s' = s1 \<or>
            (\<exists>r2 s2. get_repository_languages h username v_name s1 = Some (r2, s2) \<and>
               (s' = s2 \<or> s' = slept h Tenth s2))))"
    using assms
    by (auto simp: scrape_repository_def slept_def Let_def
             split: sum.splits option.splits prod.splits) blast+
  then show ?thesis
    using get_readme_content_follows get_repository_languages_follows follows_slept
          follows_trans follows_refl
    by metis
qed

lemma scrape_page_follows:
  "scrape_page h username items repos s = Some (res, s') \<Longrightarrow> follows s s'"
proof (induction items arbitrary: repos s)
  case Nil
  then show ?case by (simp add: follows_refl)
next
  case (Cons repo_data rest)
  obtain r1 s1 where one: "scrape_repository h username repo_data s = Some (r1, s1)"
    using Cons.prems by (cases "scrape_repository h username repo_data s") auto
  have "s' = s1 \<or> (\<exists>repos'. scrape_page h username rest repos' s1 = Some (res, s'))"
    using Cons.prems one by (auto split: sum.splits)
  then show ?case
    using scrape_repository_follows[OF one] Cons.IH follows_trans by blast
qed

lemma fetch_pages_follows_aux:
  assumes "fetch_pages h0 username0 page0 repos0 s0 = Some y0"
  shows "follows s0 (snd y0)"
proof (rule fetch_pages.raw_induct[where P = "\<lambda>h username page repos s y. follows s (snd y)", OF _ assms],
       goal_cases)
  case (1 rec h username page repos s y)
  let ?req = "make_api_request h (base_api_url @ ''/users/'' @ username @ ''/repos'')
                (Some (listing_params page)) s"
  obtain r1 s1 where req: "?req = Some (r1, s1)"
    using 1(2) by (cases ?req) auto
  have s1: "follows s s1" using req by (rule make_api_request_follows)
  have "snd y = s1 \<or>
        (\<exists>items r2 s2. scrape_page h username items repos s1 = Some (r2, s2) \<and>
           (snd y = s2 \<or> (\<exists>repos'. rec h username (page + 1) repos' s2 = Some y)))"
    using 1(2) req
    by (auto split: sum.splits if_splits option.splits prod.splits) blast+
  then show ?case
    using s1 scrape_page_follows 1(1) follows_trans by metis
qed

lemma get_user_repositories_follows:
  "get_user_repositories h username s = Some (res, s') \<Longrightarrow> follows s s'"
  unfolding get_user_repositories_def using fetch_pages_follows_aux by fastforce

lemma scrape_user_complete_cases:
  assumes "scrape_user_complete h fs username save_opt s = Some (Inr d, s')"
  obtains prof s1 repos s2 where
    "get_user_profile h username s = Some (Inr (Some prof), s1)"
    "get_user_repositories h username s1 = Some (Inr repos, s2)"
    "profile d = prof" "repositories d = repos" "statistics d = calculate_statistics repos"
    "scraped_at (metadata d) = now_isoformat h (world s2)"
    "scraper_version (metadata d) = ''1.0.0''"
    "total_api_requests (metadata d) = api_requests_count s2"
    "trace s' = trace s2" "api_requests_count s' = api_requests_count s2"
proof -
  obtain r1 s1 where p: "get_user_profile h username s = Some (r1, s1)"
    using assms by (cases "get_user_profile h username s") (auto simp: scrape_user_complete_def)
  obtain prof where r1: "r1 = Inr (Some prof)"
    using assms p by (auto simp: scrape_user_complete_def split: sum.splits option.splits)
  obtain r2 s2 where g: "get_user_repositories h username s1 = Some (r2, s2)"
    using assms p r1
    by (cases "get_user_repositories h username s1") (auto simp: scrape_user_complete_def)
  obtain repos where r2: "r2 = Inr repos"
    using assms p r1 g by (auto simp: scrape_user_complete_def split: sum.splits)
  show thesis
    using assms p r1 g r2
    by (intro that[of prof s1 repos s2])
       (auto simp: scrape_user_complete_def Let_def split: if_splits sum.splits)
qed

section \<open>Runs on the simulated host\<close>

lemma sent_simps:
  "api_requests_count (sent api_url params w s) = api_requests_count s + 1"
  "world (sent api_url params w s) = w"
  "trace (sent api_url params w s) = trace s @ [Get \<lparr> req_url = api_url, req_params = params \<rparr>]"
  "save_to_file (sent api_url params w s) = save_to_file s"
  "output_dir (sent api_url params w s) = output_dir s"
  by (simp_all add: sent_def)

lemma slept_simps:
  "api_requests_count (slept h d s) = api_requests_count s"
  "world (slept h d s) = time_sleep h d (world s)"
  "trace (slept h d s) = trace s @ [Sleep d]"
  "save_to_file (slept h d s) = save_to_file s"
  "output_dir (slept h d s) = output_dir s"
  by (simp_all add: slept_def)

lemma start_simps:
  "api_requests_count start = 0" "world start = \<lparr> clock = 1000, pending = [] \<rparr>"
  "trace start = []" "save_to_file start = False" "output_dir start = ''output''"
  by (simp_all add: start_def new_scraper_def)

lemma sim_host_simps:
  "session_get (sim_host f) req w =
     (case pending w of [] \<Rightarrow> (f req, w) | r # rest \<Rightarrow> (r, w\<lparr> pending := rest \<rparr>))"
  "time_time (sim_host f) w = clock w"
  "time_sleep (sim_host f) (Seconds n) w = w\<lparr> clock := clock w + n \<rparr>"
  "time_sleep (sim_host f) Tenth w = w"
  "now_isoformat (sim_host f) w = ''2025-06-01T12:00:00''"
  "b64decode_utf8 (sim_host f) = toy_b64decode"
  by (simp_all add: sim_host_def)

lemma plain_ok: "plain (ok j)" "result_json (ok j) = j"
  by (simp_all add: ok_def rate_limited_def)

lemma plain_not_found: "plain not_found" "result_json not_found = JNull"
  by (simp_all add: not_found_def rate_limited_def)

lemma limit_hit_limited:
  "limit_hit reset = Response r \<Longrightarrow> rate_limited r"
  by (auto simp: limit_hit_def rate_limited_def lower_def lower_char_def)

section \<open>Pagination\<close>

lemma scrape_page_length:
  "scrape_page h username items repos s = Some (Inr repos', s') \<Longrightarrow>
   length repos' = length repos + length items"
proof (induction items arbitrary: repos s)
  case Nil
  then show ?case by simp
next
  case (Cons repo_data rest)
  then show ?case
    by (auto split: option.splits sum.splits prod.splits)
qed

lemma fetch_pages_step:
  assumes "make_api_request h (listing_url username) (Some (listing_params page)) s
             = Some (Inr (JList items), s1)"
    and "scrape_page h username items repos s1 = Some (Inr repos', s2)"
  shows "fetch_pages h username page repos s =
           (if items = [] then Some (Inr repos, s1)
            else if int (length items) < per_page then Some (Inr repos', s2)
            else fetch_pages h username (page + 1) repos' s2)"
  using assms
  by (subst fetch_pages.simps) (simp add: listing_url_def)

lemma fetch_pages_no_data:
  assumes "make_api_request h (listing_url username) (Some (listing_params page)) s
             = Some (Inr data, s1)"
    and "\<not> truthy data"
  shows "fetch_pages h username page repos s = Some (Inr repos, s1)"
  using assms
  by (subst fetch_pages.simps) (simp add: listing_url_def)

section \<open>Pagination on the simulated listing\<close>

lemma page_requests_simps:
  "page_requests username [] = 0"
  "page_requests username (evs @ evs') = page_requests username evs + page_requests username evs'"
  "page_requests username [Sleep d] = 0"
  "page_requests username [Get req] = (if req_url req = listing_url username then 1 else 0)"
  by (simp_all add: page_requests_def)

lemma paged_listing_other:
  "api_url \<noteq> listing_url ''u'' \<Longrightarrow>
   paged_listing sizes \<lparr> req_url = api_url, req_params = params \<rparr> = not_found"
  by (simp add: paged_listing_def)

lemma paged_request_other:
  assumes "pending (world s) = []" and "api_url \<noteq> listing_url ''u''"
  shows "make_api_request (sim_host (paged_listing sizes)) api_url params s
           = Some (Inr JNull, sent api_url params (world s) s)"
  using assms
  by (simp add: make_api_request_plain sim_host_simps paged_listing_other plain_not_found)

lemma paged_scrape_repository:
  assumes "pending (world s) = []"
  shows "\<exists>s'. scrape_repository (sim_host (paged_listing sizes)) ''u'' listed_repo s
                 = Some (Inr plain_repo, s') \<and>
              world s' = world s \<and>
              page_requests ''u'' (trace s') = page_requests ''u'' (trace s)"
  using assms
  by (simp add: scrape_repository_def listed_repo_def dict_get_def
        get_readme_content_def readme_names_def get_repository_languages_def
        paged_request_other listing_url_def base_api_url_def sent_simps slept_simps
        sim_host_simps build_repository_def plain_repo_def page_requests_def Let_def)

lemma paged_scrape_page:
  assumes "pending (world s) = []"
  shows "\<exists>s'. scrape_page (sim_host (paged_listing sizes)) ''u'' (replicate n listed_repo) repos s
                 = Some (Inr (repos @ replicate n plain_repo), s') \<and>
              world s' = world s \<and>
              page_requests ''u'' (trace s') = page_requests ''u'' (trace s)"
  using assms
proof (induction n arbitrary: repos s)
  case 0
  then show ?case by simp
next
  case (Suc n)
  obtain s1 where one:
    "scrape_repository (sim_host (paged_listing sizes)) ''u'' listed_repo s = Some (Inr plain_repo, s1)"
    "world s1 = world s" "page_requests ''u'' (trace s1) = page_requests ''u'' (trace s)"
    using paged_scrape_repository[OF Suc.prems] by blast
  have "pending (world s1) = []" using one(2) Suc.prems by simp
  from Suc.IH[OF this, of "repos @ [plain_repo]"] obtain s' where rest:
    "scrape_page (sim_host (paged_listing sizes)) ''u'' (replicate n listed_repo) (repos @ [plain_repo]) s1
       = Some (Inr ((repos @ [plain_repo]) @ replicate n plain_repo), s')"
    "world s' = world s1" "page_requests ''u'' (trace s') = page_requests ''u'' (trace s1)"
    by blast
  show ?case
    using one rest by (intro exI[of _ s']) (simp add: replicate_app_Cons_same)
qed

lemma requested_page_listing:
  "requested_page \<lparr> req_url = api_url, req_params = Some (listing_params page) \<rparr> = page"
  by (simp add: requested_page_def listing_params_def)

lemma paged_request_page:
  assumes "pending (world s) = []"
  shows "make_api_request (sim_host (paged_listing sizes)) (listing_url ''u'')
             (Some (listing_params (int p + 1))) s
           = Some (Inr (JList (replicate (if p < length sizes then sizes ! p else 0) listed_repo)),
                   sent (listing_url ''u'') (Some (listing_params (int p + 1))) (world s) s)"
proof -
  have "nat (int p + 1) - Suc 0 = p" by arith
  then show ?thesis
    using assms
    by (simp add: make_api_request_plain sim_host_simps paged_listing_def requested_page_listing
          plain_ok Let_def)
qed

lemma paged_fetch_pages:
  assumes "pending (world s) = []"
    and "p + k < length sizes"
    and "\<forall>j<k. sizes ! (p + j) = 100"
    and "sizes ! (p + k) < 100"
  shows "\<exists>s'. fetch_pages (sim_host (paged_listing sizes)) ''u'' (int p + 1) repos s
                 = Some (Inr (repos @ replicate (100 * k + sizes ! (p + k)) plain_repo), s') \<and>
              page_requests ''u'' (trace s') = page_requests ''u'' (trace s) + k + 1"
  using assms
proof (induction k arbitrary: p repos s)
  case 0
  let ?h = "sim_host (paged_listing sizes)"
  let ?s1 = "sent (listing_url ''u'') (Some (listing_params (int p + 1))) (world s) s"
  let ?n = "sizes ! p"
  have req: "make_api_request ?h (listing_url ''u'') (Some (listing_params (int p + 1))) s
               = Some (Inr (JList (replicate ?n listed_repo)), ?s1)"
    using paged_request_page[OF 0(1), of sizes p] 0(2) by simp
  have s1: "pending (world ?s1) = []" "page_requests ''u'' (trace ?s1) = page_requests ''u'' (trace s) + 1"
    using 0(1) by (simp_all add: sent_simps page_requests_simps)
  obtain s2 where pg:
    "scrape_page ?h ''u'' (replicate ?n listed_repo) repos ?s1
       = Some (Inr (repos @ replicate ?n plain_repo), s2)"
    "page_requests ''u'' (trace s2) = page_requests ''u'' (trace ?s1)"
    using paged_scrape_page[OF s1(1)] by blast
  have "fetch_pages ?h ''u'' (int p + 1) repos s
          = (if ?n = 0 then Some (Inr repos, ?s1) else Some (Inr (repos @ replicate ?n plain_repo), s2))"
    using fetch_pages_step[OF req pg(1)] 0(4) by (simp add: per_page_def)
  then show ?case
    using pg(2) s1(2) by (cases "?n = 0") simp_all
next
  case (Suc k)
  let ?h = "sim_host (paged_listing sizes)"
  let ?s1 = "sent (listing_url ''u'') (Some (listing_params (int p + 1))) (world s) s"
  have full: "sizes ! p = 100" using Suc.prems(3) by (metis add.right_neutral zero_less_Suc)
  have req: "make_api_request ?h (listing_url ''u'') (Some (listing_params (int p + 1))) s
               = Some (Inr (JList (replicate 100 listed_repo)), ?s1)"
    using paged_request_page[OF Suc.prems(1), of sizes p] Suc.prems(2) full by simp
  have s1: "pending (world ?s1) = []" "page_requests ''u'' (trace ?s1) = page_requests ''u'' (trace s) + 1"
    using Suc.prems(1) by (simp_all add: sent_simps page_requests_simps)
  obtain s2 where pg:
    "scrape_page ?h ''u'' (replicate 100 listed_repo) repos ?s1
       = Some (Inr (repos @ replicate 100 plain_repo), s2)"
    "world s2 = world ?s1"
    "page_requests ''u'' (trace s2) = page_requests ''u'' (trace ?s1)"
    using paged_scrape_page[OF s1(1)] by blast
  have step: "fetch_pages ?h ''u'' (int p + 1) repos s
          = fetch_pages ?h ''u'' (int (Suc p) + 1) (repos @ replicate 100 plain_repo) s2"
    using fetch_pages_step[OF req pg(1)] by (simp add: per_page_def add.commute)
  have "pending (world s2) = []" using pg(2) s1(1) by simp
  moreover have "Suc p + k < length sizes" using Suc.prems(2) by simp
  moreover have "\<forall>j<k. sizes ! (Suc p + j) = 100"
    using Suc.prems(3) by (metis Suc_less_eq add_Suc_shift)
  moreover have "sizes ! (Suc p + k) < 100" using Suc.prems(4) by simp
  ultimately obtain s' where rest:
    "fetch_pages ?h ''u'' (int (Suc p) + 1) (repos @ replicate 100 plain_repo) s2
       = Some (Inr ((repos @ replicate 100 plain_repo) @ replicate (100 * k + sizes ! (Suc p + k)) plain_repo), s')"
    "page_requests ''u'' (trace s') = page_requests ''u'' (trace s2) + k + 1"
    using Suc.IH[of s2 "Suc p" "repos @ replicate 100 plain_repo"] by blast
  show ?case
    using step rest pg(3) s1(2)
    by (intro exI[of _ s']) (simp add: replicate_add[symmetric] add.commute add.left_commute)
qed

section \<open>Concrete runs\<close>

lemma sim_request:
  assumes "pending (world s) = []" and "plain (f \<lparr> req_url = api_url, req_params = params \<rparr>)"
  shows "make_api_request (sim_host f) api_url params s
           = Some (Inr (result_json (f \<lparr> req_url = api_url, req_params = params \<rparr>)),
                   sent api_url params (world s) s)"
  using assms by (simp add: make_api_request_plain sim_host_simps)

lemma fetch_pages_stop:
  assumes "pending (world s) = []"
    and "plain (f \<lparr> req_url = listing_url username, req_params = Some (listing_params page) \<rparr>)"
    and "\<not> truthy (result_json (f \<lparr> req_url = listing_url username,
                                       req_params = Some (listing_params page) \<rparr>))"
  shows "fetch_pages (sim_host f) username page repos s
           = Some (Inr repos, sent (listing_url username) (Some (listing_params page)) (world s) s)"
  using assms
    sim_request[of s f "listing_url username" "Some (listing_params page)"]
  by (intro fetch_pages_no_data) simp_all

lemma plain_github_bare: "plain (github_bare req)"
  by (simp add: github_bare_def plain_ok plain_not_found)

lemma github_bare_result:
  "result_json (github_bare \<lparr> req_url = api_url, req_params = params \<rparr>)
     = (if api_url = ''https://api.github.com/users/u'' then JDict [(''login'', JStr ''u'')] else JNull)"
  by (simp add: github_bare_def base_api_url_def plain_ok plain_not_found)

lemma bare_get_user_profile:
  assumes "pending (world s) = []"
  shows "\<exists>s'. get_user_profile (sim_host github_bare) ''u'' s = Some (Inr (Some bare_profile), s') \<and>
              world s' = world s \<and> trace s' = trace s @ 
                Get \<lparr> req_url = ''https://api.github.com/users/u'', req_params = None \<rparr> #
                map (\<lambda>n. Get \<lparr> req_url = ''https://api.github.com/repos/u/u/contents/'' @ n, req_params = None \<rparr>) readme_names \<and>
              api_requests_count s' = api_requests_count s + 6"
  using assms
  by (simp add: get_user_profile_def get_profile_readme_def get_readme_content_def
        readme_names_def sim_request plain_github_bare github_bare_result base_api_url_def
        sent_simps build_profile_def dict_get_def bare_profile_def)

lemma bare_scrape:
  assumes "pending (world s) = []"
  shows "\<exists>d s'. scrape_user_complete (sim_host github_bare) fs ''u'' (Some False) s = Some (Inr d, s') \<and>
           profile d = bare_profile \<and> repositories d = [] \<and>
           total_api_requests (metadata d) = api_requests_count s + 7 \<and>
           calls (events_since s s') = 7 \<and>
           api_requests_count s' = api_requests_count s + 7 \<and>
           world s' = world s \<and> output_dir s' = output_dir s"
proof -
  obtain s1 where p:
    "get_user_profile (sim_host github_bare) ''u'' s = Some (Inr (Some bare_profile), s1)"
    "world s1 = world s"
    "trace s1 = trace s @
       Get \<lparr> req_url = ''https://api.github.com/users/u'', req_params = None \<rparr> #
       map (\<lambda>n. Get \<lparr> req_url = ''https://api.github.com/repos/u/u/contents/'' @ n,
                        req_params = None \<rparr>) readme_names"
    "api_requests_count s1 = api_requests_count s + 6"
    using bare_get_user_profile[OF assms] by blast
  have "pending (world s1) = []" using p(2) assms by simp
  then have g: "get_user_repositories (sim_host github_bare) ''u'' s1
      = Some (Inr [], sent (listing_url ''u'') (Some (listing_params 1)) (world s1) s1)"
    by (simp add: get_user_repositories_def fetch_pages_stop plain_github_bare github_bare_result
          listing_url_def base_api_url_def)
  have out: "output_dir s1 = output_dir s"
    using get_user_profile_follows[OF p(1)] by (simp add: follows_def)
  show ?thesis
    using p g out
    by (simp add: scrape_user_complete_def Let_def sent_simps events_since_def calls_def
          readme_names_def)
qed

lemma first_run_result:
  "\<exists>d s'. first_run = Some (Inr d, s') \<and> total_api_requests (metadata d) = 7 \<and>
          calls (events_since start s') = 7 \<and> api_requests_count s' = 7 \<and>
          world s' = world start"
  using bare_scrape[of start "disk None"]
  by (auto simp: first_run_def start_simps)

section \<open>README resolver\<close>

text \<open>
  What the resolver does by design: the content of the first candidate wins, a candidate
  without data, without content or with content that does not decode is passed over, and
  when the names are used up the result is \<^verbatim>\<open>None\<close>.
\<close>

lemma readme_first_candidate_wins:
  assumes "make_api_request h (base_api_url @ ''/repos/'' @ username @ ''/'' @ repo @ ''/contents/README.md'')
             None s = Some (Inr (JDict d), s1)"
    and "dict_get d ''content'' JNull = JStr c" and "c \<noteq> []"
    and "b64decode_utf8 h c = Some content"
  shows "get_readme_content h username repo branch s = Some (Inr (Some content), s1)"
  using assms
  by (cases d) (simp_all add: get_readme_content_def readme_names_def dict_get_def)

lemma readme_candidate_passed_over:
  assumes "make_api_request h
             (base_api_url @ ''/repos/'' @ username @ ''/'' @ repo @ ''/contents/'' @ readme_name)
             None s = Some (Inr data, s1)"
    and "\<not> truthy data \<or>
         (\<exists>d. data = JDict d \<and>
            (\<not> truthy (dict_get d ''content'' JNull) \<or>
             decode_content h (dict_get d ''content'' JNull) = None))"
  shows "try_readme_names h username repo (readme_name # rest) s
           = try_readme_names h username repo rest s1"
  using assms by auto

lemma readme_names_used_up:
  "try_readme_names h username repo [] s = Some (Inr None, s)"
  by simp

lemma plain_github_u: "plain (github_u req)"
  by (simp add: github_u_def plain_ok plain_not_found)

lemma github_u_result:
  "result_json (github_u \<lparr> req_url = api_url, req_params = params \<rparr>)
     = (if api_url = ''https://api.github.com/users/u'' then JDict [(''login'', JStr ''u'')]
        else if api_url = ''https://api.github.com/users/u/repos'' then
          (if requested_page \<lparr> req_url = api_url, req_params = params \<rparr> = 1
           then JList [listed_repo] else JList [])
        else if api_url = ''https://api.github.com/repos/u/r/contents/README''
          then JList [JDict [(''name'', JStr ''index.md''), (''type'', JStr ''file'')]]
        else JNull)"
  by (simp add: github_u_def base_api_url_def listing_url_def plain_ok plain_not_found)

lemma directory_readme:
  assumes "pending (world s) = []"
  shows "raised (get_readme_content (sim_host github_u) ''u'' ''r'' branch s) = Some AttributeError"
  using assms
  by (simp add: get_readme_content_def readme_names_def sim_request plain_github_u
        github_u_result base_api_url_def sent_simps)

section \<open>Profile fetcher and what reaches the caller\<close>

text \<open>
  When the user call gives no data there is no profile, partial or not, and
  \<^verbatim>\<open>scrape_user_complete\<close> raises instead of returning.
\<close>

lemma profile_failure_is_fatal:
  assumes "make_api_request h (base_api_url @ ''/users/'' @ username) None s = Some (Inr user_data, s1)"
    and "\<not> truthy user_data"
  shows "get_user_profile h username s = Some (Inr None, s1) \<and>
         scrape_user_complete h fs username save_opt s
           = Some (Inl (Exception (''Failed to fetch profile for: '' @ username)), s1)"
  using assms by (simp add: get_user_profile_def scrape_user_complete_def)

lemma u_get_user_profile:
  assumes "pending (world s) = []"
  shows "\<exists>s'. get_user_profile (sim_host github_u) ''u'' s = Some (Inr (Some bare_profile), s') \<and>
              world s' = world s"
  using assms
  by (simp add: get_user_profile_def get_profile_readme_def get_readme_content_def
        readme_names_def sim_request plain_github_u github_u_result base_api_url_def
        sent_simps build_profile_def dict_get_def bare_profile_def)

section \<open>Pagination of the repository listing\<close>

text \<open>
  C2. The listing is fetched in pages of \<open>per_page = 100\<close>. One turn of the loop, on any
  host: when the page request returns a list of items and the items are processed, the
  loop stops with the repositories accumulated so far if the list is empty, stops with the
  repositories of this page appended if the list has fewer than 100 items, and goes on to
  the next page otherwise. Hence, when the pages have 100 items \<open>k\<close> times and then
  \<open>m < 100\<close> items, the fetcher issues \<open>k + 1\<close> page requests and returns \<open>100 * k + m\<close>
  repositories: a page that is full is followed by one more request.
\<close>

theorem pagination_stops_on_short_page:
  "(make_api_request h (listing_url username) (Some (listing_params page)) s
      = Some (Inr (JList items), s1) \<and>
    scrape_page h username items repos s1 = Some (Inr repos', s2) \<longrightarrow>
      per_page = 100 \<and>
      length repos' = length repos + length items \<and>
      fetch_pages h username page repos s =
        (if items = [] then Some (Inr repos, s1)
         else if int (length items) < per_page then Some (Inr repos', s2)
         else fetch_pages h username (page + 1) repos' s2)) \<and>
   (m < 100 \<longrightarrow>
      (\<exists>rs s'.
         get_user_repositories (sim_host (paged_listing (replicate k 100 @ [m]))) ''u'' start
           = Some (Inr rs, s') \<and>
         length rs = 100 * k + m \<and>
         page_requests ''u'' (trace s') = k + 1))"
proof (intro conjI impI)
  assume run: "make_api_request h (listing_url username) (Some (listing_params page)) s
                 = Some (Inr (JList items), s1) \<and>
               scrape_page h username items repos s1 = Some (Inr repos', s2)"
  show "per_page = 100" by (simp add: per_page_def)
  show "length repos' = length repos + length items"
    using run scrape_page_length by blast
  show "fetch_pages h username page repos s =
          (if items = [] then Some (Inr repos, s1)
           else if int (length items) < per_page then Some (Inr repos', s2)
           else fetch_pages h username (page + 1) repos' s2)"
    using run fetch_pages_step by blast
next
  assume short: "m < 100"
  let ?sizes = "replicate k 100 @ [m]"
  have "pending (world start) = []" by (simp add: start_simps)
  moreover have "0 + k < length ?sizes" by simp
  moreover have "\<forall>j<k. ?sizes ! (0 + j) = 100" by (simp add: nth_append)
  moreover have "?sizes ! (0 + k) < 100" using short by (simp add: nth_append)
  ultimately obtain s' where
    "fetch_pages (sim_host (paged_listing ?sizes)) ''u'' (int 0 + 1) [] start
       = Some (Inr ([] @ replicate (100 * k + ?sizes ! (0 + k)) plain_repo), s')"
    "page_requests ''u'' (trace s') = page_requests ''u'' (trace start) + k + 1"
    using paged_fetch_pages[of start 0 k ?sizes "[]"] by blast
  then show "\<exists>rs s'.
         get_user_repositories (sim_host (paged_listing (replicate k 100 @ [m]))) ''u'' start
           = Some (Inr rs, s') \<and>
         length rs = 100 * k + m \<and>
         page_requests ''u'' (trace s') = k + 1"
    by (intro exI[of _ "replicate (100 * k + m) plain_repo"] exI[of _ s'])
       (simp add: get_user_repositories_def nth_append start_simps page_requests_simps)
qed

theorem pagination_stops_on_short_page_witness:
  "(\<exists>s1 s2 rs.
      make_api_request (sim_host (paged_listing [3])) (listing_url ''u'') (Some (listing_params 1)) start
        = Some (Inr (JList [listed_repo, listed_repo, listed_repo]), s1) \<and>
      scrape_page (sim_host (paged_listing [3])) ''u'' [listed_repo, listed_repo, listed_repo] [] s1
        = Some (Inr rs, s2) \<and>
      length rs = 3 \<and>
      fetch_pages (sim_host (paged_listing [3])) ''u'' 1 [] start = Some (Inr rs, s2)) \<and>
   (\<exists>rs s'.
      get_user_repositories (sim_host (paged_listing [100, 100, 3])) ''u'' start
        = Some (Inr rs, s') \<and>
      length rs = 203 \<and> page_requests ''u'' (trace s') = 3) \<and>
   (\<exists>rs s'.
      get_user_repositories (sim_host (paged_listing [100, 0])) ''u'' start
        = Some (Inr rs, s') \<and>
      length rs = 100 \<and> page_requests ''u'' (trace s') = 2)"
proof -
  let ?h = "sim_host (paged_listing [3])"
  let ?items = "[listed_repo, listed_repo, listed_repo]"
  let ?s1 = "sent (listing_url ''u'') (Some (listing_params 1)) (world start) start"
  have items: "replicate 3 listed_repo = ?items" by (simp add: numeral_3_eq_3)
  have page: "make_api_request ?h (listing_url ''u'') (Some (listing_params 1)) start
                = Some (Inr (JList ?items), ?s1)"
    using paged_request_page[of start "[3]" 0] by (simp add: start_simps items)
  have "pending (world ?s1) = []" by (simp add: sent_simps start_simps)
  from paged_scrape_page[OF this, of "[3]" 3 "[]"] obtain s2 where
    pg: "scrape_page ?h ''u'' ?items [] ?s1 = Some (Inr (replicate 3 plain_repo), s2)"
    by (auto simp: items)
  have "fetch_pages ?h ''u'' 1 [] start = Some (Inr (replicate 3 plain_repo), s2)"
    using pagination_stops_on_short_page[of ?h "''u''" 1 start ?items ?s1 "[]"
            "replicate 3 plain_repo" s2] page pg
    by (simp add: per_page_def)
  then have first: "\<exists>s1 s2 rs.
      make_api_request ?h (listing_url ''u'') (Some (listing_params 1)) start
        = Some (Inr (JList ?items), s1) \<and>
      scrape_page ?h ''u'' ?items [] s1 = Some (Inr rs, s2) \<and>
      length rs = 3 \<and>
      fetch_pages ?h ''u'' 1 [] start = Some (Inr rs, s2)"
    using page pg by (intro exI[of _ ?s1] exI[of _ s2] exI[of _ "replicate 3 plain_repo"]) simp
  have two: "replicate 2 (100::nat) @ [3] = [100, 100, 3]" "replicate 1 (100::nat) @ [0] = [100, 0]"
    by (simp_all add: numeral_2_eq_2)
  have long: "\<exists>rs s'.
      get_user_repositories (sim_host (paged_listing [100, 100, 3])) ''u'' start
        = Some (Inr rs, s') \<and>
      length rs = 203 \<and> page_requests ''u'' (trace s') = 3"
    using pagination_stops_on_short_page[where m = 3 and k = 2, THEN conjunct2]
    by (simp add: two)
  have short: "\<exists>rs s'.
      get_user_repositories (sim_host (paged_listing [100, 0])) ''u'' start
        = Some (Inr rs, s') \<and>
      length rs = 100 \<and> page_requests ''u'' (trace s') = 2"
    using pagination_stops_on_short_page[where m = 0 and k = 1, THEN conjunct2]
    by (simp add: two numeral_2_eq_2)
  show ?thesis
    using first long short by blast
qed

section \<open>README resolver on a directory\<close>

text \<open>
  C3 fails on the code where a candidate name is a directory of the repository: the
  contents endpoint answers with the list of the directory's entries, a list has no
  \<^verbatim>\<open>get\<close>, and the \<^verbatim>\<open>AttributeError\<close> leaves the resolver. Here no candidate has content, the
  first four names are missing and \<^verbatim>\<open>README\<close> is a directory.
\<close>

theorem readme_directory_raises:
  "raised (get_readme_content (sim_host github_u) ''u'' ''r'' ''main'' start) = Some AttributeError \<and>
   returned (get_readme_content (sim_host github_u) ''u'' ''r'' ''main'' start) = None"
proof -
  have "raised (get_readme_content (sim_host github_u) ''u'' ''r'' ''main'' start) = Some AttributeError"
    by (rule directory_readme) (simp add: start_simps)
  then show ?thesis
    by (cases "get_readme_content (sim_host github_u) ''u'' ''r'' ''main'' start" rule: raised.cases)
       simp_all
qed

section \<open>Wait before the retry after a rate limit\<close>

text \<open>
  C4. A response with status 403 whose body contains \<^verbatim>\<open>rate limit\<close> (in any case) and whose
  reset header is the epoch \<open>reset\<close> makes the client sleep \<open>max (reset - now) 60\<close> seconds and
  then issue the same request again: the call is what the call after that sleep is. The
  wait is never below 60 seconds; for a reset 5 seconds ahead it is 60.
\<close>

theorem rate_limit_wait:
  assumes "session_get h \<lparr> req_url = api_url, req_params = params \<rparr> (world s) = (Response r, w)"
    and "status_code r = 403"
    and "contains (lower (body_text r)) ''rate limit''"
    and "ratelimit_reset r = ResetInt reset"
  shows "make_api_request h api_url params s =
           make_api_request h api_url params
             (slept h (Seconds (max (reset - time_time h w) 60)) (sent api_url params w s)) \<and>
         60 \<le> max (reset - time_time h w) 60 \<and>
         (reset = time_time h w + 5 \<longrightarrow> max (reset - time_time h w) 60 = 60)"
proof -
  have "rate_limited r"
    using assms(2,3) by (simp add: rate_limited_def)
  then show ?thesis
    using make_api_request_limited[of h api_url params s r] assms(1,4)
    by (simp add: Let_def sent_simps)
qed

theorem rate_limit_wait_witness:
  "returned (make_api_request (sim_host github_bare) ''https://api.github.com/users/u'' None limited_start)
     = Some (JDict [(''login'', JStr ''u'')]) \<and>
   map_option trace (left (make_api_request (sim_host github_bare) ''https://api.github.com/users/u'' None limited_start))
     = Some [Get \<lparr> req_url = ''https://api.github.com/users/u'', req_params = None \<rparr>,
             Sleep (Seconds 60),
             Get \<lparr> req_url = ''https://api.github.com/users/u'', req_params = None \<rparr>]"
proof -
  let ?url = "''https://api.github.com/users/u''"
  let ?r = "\<lparr> status_code = 403, body_text = ''API Rate Limit exceeded'',
              ratelimit_reset = ResetInt 1005,
              json_body = Some (JDict [(''message'', JStr ''API rate limit exceeded'')]) \<rparr>"
  have got: "session_get (sim_host github_bare) \<lparr> req_url = ?url, req_params = None \<rparr> (world limited_start)
               = (Response ?r, \<lparr> clock = 1000, pending = [] \<rparr>)"
    by (simp add: sim_host_simps limited_start_def new_scraper_def limit_hit_def)
  have body: "contains (lower (body_text ?r)) ''rate limit''"
    by (simp add: lower_def lower_char_def)
  have "make_api_request (sim_host github_bare) ?url None limited_start
          = make_api_request (sim_host github_bare) ?url None
              (slept (sim_host github_bare) (Seconds 60)
                 (sent ?url None \<lparr> clock = 1000, pending = [] \<rparr> limited_start))"
    using rate_limit_wait[OF got _ body, of 1005] by (simp add: sim_host_simps)
  then show ?thesis
    by (simp add: sim_request plain_github_bare github_bare_result slept_simps sent_simps
          sim_host_simps limited_start_def new_scraper_def)
qed

section \<open>Failures that reach the caller\<close>

text \<open>
  C5 fails on the code for the same reason as C3: the user \<^verbatim>\<open>u\<close> has a profile, which is
  fetched, and one repository in which \<^verbatim>\<open>README\<close> is a directory; the \<^verbatim>\<open>AttributeError\<close> of
  the resolver leaves \<^verbatim>\<open>get_user_repositories\<close> and \<^verbatim>\<open>scrape_user_complete\<close>.
\<close>

theorem scrape_raises_with_profile:
  "returned (get_user_profile (sim_host github_u) ''u'' start) = Some (Some bare_profile) \<and>
   raised (scrape_user_complete (sim_host github_u) (disk None) ''u'' (Some False) start)
     = Some AttributeError"
proof -
  obtain s1 where p:
    "get_user_profile (sim_host github_u) ''u'' start = Some (Inr (Some bare_profile), s1)"
    "world s1 = world start"
    using u_get_user_profile[of start] by (auto simp: start_simps)
  have pend: "pending (world s1) = []" by (simp add: p(2) start_simps)
  let ?s2 = "sent (listing_url ''u'') (Some (listing_params 1)) (world s1) s1"
  have page: "make_api_request (sim_host github_u) (listing_url ''u'') (Some (listing_params 1)) s1
                = Some (Inr (JList [listed_repo]), ?s2)"
    using pend
    by (simp add: sim_request plain_github_u github_u_result listing_url_def base_api_url_def
          requested_page_listing)
  have "pending (world ?s2) = []" using pend by (simp add: sent_simps)
  then have "raised (get_readme_content (sim_host github_u) ''u'' ''r'' ''main'' ?s2) = Some AttributeError"
    by (rule directory_readme)
  then obtain s3 where
    "get_readme_content (sim_host github_u) ''u'' ''r'' ''main'' ?s2 = Some (Inl AttributeError, s3)"
    by (cases "get_readme_content (sim_host github_u) ''u'' ''r'' ''main'' ?s2" rule: raised.cases)
       simp_all
  then have "scrape_page (sim_host github_u) ''u'' [listed_repo] [] ?s2 = Some (Inl AttributeError, s3)"
    by (simp add: scrape_repository_def listed_repo_def dict_get_def)
  then have "fetch_pages (sim_host github_u) ''u'' 1 [] s1 = Some (Inl AttributeError, s3)"
    using page by (subst fetch_pages.simps) (simp add: listing_url_def)
  then show ?thesis
    using p(1) by (simp add: scrape_user_complete_def get_user_repositories_def)
qed

section \<open>Persistence failure\<close>

text \<open>
  C6. Take a scrape that returns \<open>d0\<close> when it is not asked to save. When it is asked to save
  and the save step raises, the result is \<open>d0\<close> with \<open>save_error\<close> set to the text of the
  exception and \<open>saved_to_file\<close> still empty; when the save step succeeds, the result is
  \<open>d0\<close> with \<open>saved_to_file\<close> set. Profile, repositories and statistics are therefore the
  same in both, as are the other metadata fields.
\<close>

theorem persistence_failure_isolated:
  assumes "scrape_user_complete h fs0 username (Some False) s = Some (Inr d0, s0)"
    and "save_opt = Some True \<or> (save_opt = None \<and> save_to_file s)"
    and "save_to_json fs_bad (output_dir s0) d0 username (world s0) = (Inl msg, w_bad)"
    and "save_to_json fs_good (output_dir s0) d0 username (world s0) = (Inr filepath, w_good)"
  shows "\<exists>d_bad d_good.
           scrape_user_complete h fs_bad username save_opt s = Some (Inr d_bad, s0\<lparr> world := w_bad \<rparr>) \<and>
           scrape_user_complete h fs_good username save_opt s = Some (Inr d_good, s0\<lparr> world := w_good \<rparr>) \<and>
           save_error (metadata d_bad) = Some msg \<and>
           saved_to_file (metadata d_bad) = None \<and>
           saved_to_file (metadata d_good) = Some filepath \<and>
           profile d_bad = profile d_good \<and>
           repositories d_bad = repositories d_good \<and>
           statistics d_bad = statistics d_good \<and>
           scraped_at (metadata d_bad) = scraped_at (metadata d_good) \<and>
           scraper_version (metadata d_bad) = scraper_version (metadata d_good) \<and>
           total_api_requests (metadata d_bad) = total_api_requests (metadata d_good) \<and>
           d_bad = d0\<lparr> metadata := (metadata d0)\<lparr> save_error := Some msg \<rparr> \<rparr> \<and>
           d_good = d0\<lparr> metadata := (metadata d0)\<lparr> saved_to_file := Some filepath \<rparr> \<rparr>"
proof -
  obtain r1 s1 where p: "get_user_profile h username s = Some (r1, s1)"
    using assms(1) by (cases "get_user_profile h username s") (auto simp: scrape_user_complete_def)
  obtain prof where r1: "r1 = Inr (Some prof)"
    using assms(1) p by (auto simp: scrape_user_complete_def split: sum.splits option.splits)
  obtain r2 s2 where g: "get_user_repositories h username s1 = Some (r2, s2)"
    using assms(1) p r1
    by (cases "get_user_repositories h username s1") (auto simp: scrape_user_complete_def)
  obtain repos where r2: "r2 = Inr repos"
    using assms(1) p r1 g by (auto simp: scrape_user_complete_def split: sum.splits)
  have s0: "s0 = s2" and d0: "d0 =
      \<lparr> profile = prof, repositories = repos, statistics = calculate_statistics repos,
        metadata = \<lparr> scraped_at = now_isoformat h (world s2), scraper_version = ''1.0.0'',
                     total_api_requests = api_requests_count s2,
                     saved_to_file = None, save_error = None \<rparr> \<rparr>"
    using assms(1) p r1 g r2 by (auto simp: scrape_user_complete_def Let_def)
  have "follows s s2"
    using get_user_profile_follows[OF p] get_user_repositories_follows[OF g]
    by (rule follows_trans)
  then have save: "(case save_opt of Some b \<Rightarrow> b | None \<Rightarrow> save_to_file s2)"
    using assms(2) by (auto simp: follows_def)
  have bad: "scrape_user_complete h fs_bad username save_opt s
      = Some (Inr (d0\<lparr> metadata := (metadata d0)\<lparr> save_error := Some msg \<rparr> \<rparr>), s0\<lparr> world := w_bad \<rparr>)"
    using p r1 g r2 save assms(3)[unfolded s0 d0]
    by (simp add: scrape_user_complete_def Let_def s0 d0)
  have good: "scrape_user_complete h fs_good username save_opt s
      = Some (Inr (d0\<lparr> metadata := (metadata d0)\<lparr> saved_to_file := Some filepath \<rparr> \<rparr>), s0\<lparr> world := w_good \<rparr>)"
    using p r1 g r2 save assms(4)[unfolded s0 d0]
    by (simp add: scrape_user_complete_def Let_def s0 d0)
  show ?thesis
    using bad good by (simp add: d0)
qed

theorem persistence_failure_isolated_witness:
  "\<exists>d_bad d_good.
     returned (scrape_user_complete (sim_host github_bare) (disk (Some ''No space left on device''))
                 ''u'' (Some True) start) = Some d_bad \<and>
     returned (scrape_user_complete (sim_host github_bare) (disk None) ''u'' (Some True) start)
       = Some d_good \<and>
     save_error (metadata d_bad) = Some ''No space left on device'' \<and>
     saved_to_file (metadata d_bad) = None \<and>
     saved_to_file (metadata d_good) = Some ''output/u_profile_20250601_120000.json'' \<and>
     profile d_bad = profile d_good \<and>
     repositories d_bad = repositories d_good \<and>
     statistics d_bad = statistics d_good"
proof -
  obtain d0 s0 where run:
    "scrape_user_complete (sim_host github_bare) (disk None) ''u'' (Some False) start = Some (Inr d0, s0)"
    "output_dir s0 = output_dir start"
    using bare_scrape[of start "disk None"] by (auto simp: start_simps)
  have bad: "save_to_json (disk (Some ''No space left on device'')) (output_dir s0) d0 ''u'' (world s0)
               = (Inl ''No space left on device'', world s0)"
    by (simp add: save_to_json_def disk_def)
  have good: "save_to_json (disk None) (output_dir s0) d0 ''u'' (world s0)
               = (Inr ''output/u_profile_20250601_120000.json'', world s0)"
    by (simp add: save_to_json_def disk_def run(2) start_simps path_join_def)
  show ?thesis
    using persistence_failure_isolated[OF run(1) _ bad good, of "Some True"]
    by auto
qed

section \<open>Count of API requests in the metadata\<close>

text \<open>
  C9 (as amended). The count in the metadata is the value of the scraper's request counter
  when the metadata is created: the value the counter had before the run plus the number of
  HTTP calls of the run, retries after a rate limit included. For a scraper that has made
  no call before, it is the number of calls of the run.
\<close>

theorem total_api_requests_counts_calls:
  assumes "scrape_user_complete h fs username save_opt s = Some (Inr d, s')"
  shows "take (length (trace s)) (trace s') = trace s \<and>
         total_api_requests (metadata d) = api_requests_count s + calls (events_since s s') \<and>
         (api_requests_count s = 0 \<and> trace s = [] \<longrightarrow>
            total_api_requests (metadata d) = calls (trace s'))"
proof -
  obtain prof s1 repos s2 where
    p: "get_user_profile h username s = Some (Inr (Some prof), s1)" and
    g: "get_user_repositories h username s1 = Some (Inr repos, s2)" and
    total: "total_api_requests (metadata d) = api_requests_count s2" and
    tr: "trace s' = trace s2"
    using assms by (rule scrape_user_complete_cases)
  have "follows s s2"
    using get_user_profile_follows[OF p] get_user_repositories_follows[OF g]
    by (rule follows_trans)
  then show ?thesis
    using total tr by (simp add: follows_def events_since_def)
qed

theorem total_api_requests_counts_calls_witness:
  "reported_calls first_run = Some 7 \<and> dispatched_calls start first_run = Some 7"
proof -
  obtain d s' where run: "first_run = Some (Inr d, s')" "calls (events_since start s') = 7"
    using first_run_result by blast
  have "scrape_user_complete (sim_host github_bare) (disk None) ''u'' (Some False) start
          = Some (Inr d, s')"
    using run(1) by (simp add: first_run_def)
  from total_api_requests_counts_calls[OF this]
  have "total_api_requests (metadata d) = calls (events_since start s')"
    by (simp add: start_simps)
  then show ?thesis
    using run(2) by (simp add: reported_calls_def dispatched_calls_def run(1))
qed

text \<open>
  C9 (as stated) fails when a scraper object is used for a second run: the counter is set
  in the constructor only, so the metadata of the second run counts the calls of both
  runs, 14, while the second run dispatched 7.
\<close>

theorem total_api_requests_counterexample:
  "reported_calls second_run = Some 14 \<and> dispatched_calls reused_scraper second_run = Some 7"
proof -
  obtain d1 s1 where one: "first_run = Some (Inr d1, s1)" "api_requests_count s1 = 7"
    "world s1 = world start"
    using first_run_result by blast
  have reused: "reused_scraper = s1" by (simp add: reused_scraper_def one(1))
  obtain d2 s2 where two:
    "second_run = Some (Inr d2, s2)" "total_api_requests (metadata d2) = api_requests_count s1 + 7"
    "calls (events_since s1 s2) = 7"
    using bare_scrape[of s1 "disk None"] one(3)
    by (auto simp: second_run_def reused start_simps)
  show ?thesis
    using two(2,3) one(2) by (simp add: reported_calls_def dispatched_calls_def reused two(1))
qed

section \<open>Failure of a listing page\<close>

text \<open>
  C10. When the request for a page of the listing fails, that is, the call raises a request
  exception, answers an error status or gives no JSON, pagination ends and the result is
  the list of repositories accumulated before that page; when it is the first page, the
  result is the empty list. A host that answers the same request with an empty list gives
  the same result, so the caller cannot tell the two apart.
\<close>

theorem failed_page_ends_pagination:
  assumes "session_get h \<lparr> req_url = listing_url username,
                            req_params = Some (listing_params page) \<rparr> (world s) = (res, w)"
    and "plain res" and "result_json res = JNull"
  shows "fetch_pages h username page repos s
           = Some (Inr repos, sent (listing_url username) (Some (listing_params page)) w s) \<and>
         (page = 1 \<longrightarrow>
            get_user_repositories h username s
              = Some (Inr [], sent (listing_url username) (Some (listing_params 1)) w s)) \<and>
         (\<forall>h' res'.
            session_get h' \<lparr> req_url = listing_url username,
                             req_params = Some (listing_params page) \<rparr> (world s) = (res', w) \<and>
            plain res' \<and> result_json res' = JList [] \<longrightarrow>
            fetch_pages h' username page repos s = fetch_pages h username page repos s)"
proof -
  let ?req = "\<lparr> req_url = listing_url username, req_params = Some (listing_params page) \<rparr>"
  let ?s1 = "sent (listing_url username) (Some (listing_params page)) w s"
  have stop: "fetch_pages g username page rs s = Some (Inr rs, ?s1)"
    if "session_get g ?req (world s) = (x, w)" "plain x" "\<not> truthy (result_json x)"
    for g :: "'a host" and x rs
    using that make_api_request_plain[of g "listing_url username" "Some (listing_params page)" s]
    by (intro fetch_pages_no_data[where data = "result_json x"]) simp_all
  have here: "fetch_pages h username page rs s = Some (Inr rs, ?s1)" for rs
    using stop[OF assms(1,2)] assms(3) by simp
  have "fetch_pages h' username page repos s = fetch_pages h username page repos s"
    if "session_get h' ?req (world s) = (res', w)" "plain res'" "result_json res' = JList []"
    for h' :: "'a host" and res'
    using stop[OF that(1,2)] that(3) here by simp
  then show ?thesis
    using here by (auto simp: get_user_repositories_def)
qed

theorem failed_page_ends_pagination_witness:
  "fetch_pages (sim_host github_bare) ''u'' 2 [plain_repo] start
     = Some (Inr [plain_repo], sent (listing_url ''u'') (Some (listing_params 2)) (world start) start) \<and>
   get_user_repositories (sim_host github_bare) ''u'' start
     = Some (Inr [], sent (listing_url ''u'') (Some (listing_params 1)) (world start) start) \<and>
   fetch_pages (sim_host (paged_listing [])) ''u'' 1 [] start
     = fetch_pages (sim_host github_bare) ''u'' 1 [] start"
proof -
  have got: "session_get (sim_host github_bare)
               \<lparr> req_url = listing_url ''u'', req_params = Some (listing_params page) \<rparr> (world start)
             = (not_found, world start)" for page
    by (simp add: sim_host_simps start_simps github_bare_def listing_url_def base_api_url_def)
  have empty: "session_get (sim_host (paged_listing []))
               \<lparr> req_url = listing_url ''u'', req_params = Some (listing_params 1) \<rparr> (world start)
             = (ok (JList []), world start)"
    by (simp add: sim_host_simps start_simps paged_listing_def requested_page_listing Let_def)
  show ?thesis
    using failed_page_ends_pagination[OF got, of 2 "[plain_repo]"]
          failed_page_ends_pagination[OF got, of 1 "[]"] empty
    by (simp add: plain_not_found plain_ok)
qed

end
